theory Spec2Isabelle
  imports Main
begin

section \<open>JavaScript values, property descriptors and the object store\<close>

text \<open>
  The engine of \<^verbatim>\<open>src/observer.js\<close> works on plain JavaScript objects that are shared by
  reference: the diff under construction, the staging objects of the tracked nodes and the
  observed tree point into each other. Objects therefore live in an explicit store, and a
  value is a primitive or a reference into it.

  Scope of the model: objects are plain objects (prototype \<^verbatim>\<open>Object.prototype\<close>, extensible)
  whose keys do not collide with the members of \<^verbatim>\<open>Object.prototype\<close>; numbers are the
  integer-valued ones (no \<^verbatim>\<open>NaN\<close>); an accessor property is backed by a private slot, its
  getter returns the slot, its setter stores into the slot or rejects the value by throwing.
\<close>

type_synonym addr = nat
type_synonym key = string

datatype val = Undefined | Null | Bool bool | Num int | Str string | Fn nat | Ref addr

datatype exn = TypeError string | SetterError

datatype setter = SetSlot | SetThrow

datatype slot =
    Data val bool
  | Accessor val bool "setter option"

datatype descr = Prop (content: slot) (enumerable: bool) (configurable: bool)

type_synonym obj = "(key \<times> descr) list"
type_synonym heap = "(addr \<times> obj) list"

fun typeof :: "val \<Rightarrow> string" where
  "typeof Undefined = ''undefined''"
| "typeof Null = ''object''"
| "typeof (Bool b) = ''boolean''"
| "typeof (Num n) = ''number''"
| "typeof (Str s) = ''string''"
| "typeof (Fn f) = ''function''"
| "typeof (Ref a) = ''object''"

fun truthy :: "val \<Rightarrow> bool" where
  "truthy Undefined = False"
| "truthy Null = False"
| "truthy (Bool b) = b"
| "truthy (Num n) = (n \<noteq> 0)"
| "truthy (Str s) = (s \<noteq> [])"
| "truthy (Fn f) = True"
| "truthy (Ref a) = True"

text \<open>\<^verbatim>\<open>a === b\<close>: equal primitives, or the same object.\<close>

definition strict_eq :: "val \<Rightarrow> val \<Rightarrow> bool" where
  "strict_eq a b = (a = b)"

text \<open>
  Modelled from the spec: \<^verbatim>\<open>isObj\<close> (module \<^verbatim>\<open>./isObj\<close>, required by the sources but not
  among them). The spec says of the read path: a value that "is not an object" is returned
  verbatim, an object is wrapped; so \<open>isObj\<close> holds exactly of the object references.
\<close>

fun isObj :: "val \<Rightarrow> bool" where
  "isObj (Ref a) = True"
| "isObj v = False"

subsection \<open>Own properties, in creation order\<close>

primrec put_prop :: "key \<Rightarrow> descr \<Rightarrow> obj \<Rightarrow> obj" where
  "put_prop k p [] = [(k, p)]"
| "put_prop k p (e # es) = (if fst e = k then (k, p) # es else e # put_prop k p es)"

definition drop_prop :: "key \<Rightarrow> obj \<Rightarrow> obj" where
  "drop_prop k ob = filter (\<lambda>e. fst e \<noteq> k) ob"

text \<open>The store maps addresses to objects; \<open>put_obj\<close> replaces the object at an address or
  adds it.\<close>

primrec put_obj :: "addr \<Rightarrow> obj \<Rightarrow> heap \<Rightarrow> heap" where
  "put_obj a ob [] = [(a, ob)]"
| "put_obj a ob (e # es) = (if fst e = a then (a, ob) # es else e # put_obj a ob es)"

text \<open>
  \<^verbatim>\<open>OwnPropertyKeys\<close> of an ordinary object: the array indices (canonical numeric strings
  below \<open>2^32 - 1\<close>) in ascending order, then the other string keys in creation order.
\<close>

definition is_digit :: "char \<Rightarrow> bool" where
  "is_digit c = (c \<in> set ''0123456789'')"

definition digits_val :: "string \<Rightarrow> int" where
  "digits_val s = fold (\<lambda>c n. 10 * n + (of_char c - 48)) s 0"

definition index_of :: "key \<Rightarrow> int option" where
  "index_of k =
     (if k \<noteq> [] \<and> list_all is_digit k \<and> (length k = 1 \<or> hd k \<noteq> CHR ''0'')
         \<and> digits_val k < 4294967295
      then Some (digits_val k) else None)"

definition key_order :: "key list \<Rightarrow> key list" where
  "key_order ks =
     sort_key (\<lambda>k. case index_of k of Some i \<Rightarrow> i | None \<Rightarrow> 0) (filter (\<lambda>k. index_of k \<noteq> None) ks)
       @ filter (\<lambda>k. index_of k = None) ks"

definition own_keys :: "obj \<Rightarrow> key list" where
  "own_keys ob = key_order (map fst ob)"

definition enum_keys :: "obj \<Rightarrow> key list" where
  "enum_keys ob =
     filter (\<lambda>k. case map_of ob k of Some p \<Rightarrow> enumerable p | None \<Rightarrow> False) (own_keys ob)"

text \<open>The own enumerable keys that an object spread \<^verbatim>\<open>{...v}\<close> copies; a spread of
  \<^verbatim>\<open>null\<close>, \<^verbatim>\<open>undefined\<close>, a number or a boolean copies nothing.\<close>

definition spread_keys :: "heap \<Rightarrow> val \<Rightarrow> key list" where
  "spread_keys h v =
     (case v of Ref a \<Rightarrow> (case map_of h a of Some ob \<Rightarrow> enum_keys ob | None \<Rightarrow> []) | _ \<Rightarrow> [])"

text \<open>\<^verbatim>\<open>Object.keys({...oldObj, ...newObj})\<close>.\<close>

definition union_keys :: "heap \<Rightarrow> val \<Rightarrow> val \<Rightarrow> key list" where
  "union_keys h oldObj newObj =
     (let ks1 = spread_keys h oldObj; ks2 = spread_keys h newObj
      in key_order (ks1 @ filter (\<lambda>k. k \<notin> set ks1) ks2))"

subsection \<open>Reading, writing and reflecting on properties (strict mode)\<close>

fun read_slot :: "slot \<Rightarrow> val" where
  "read_slot (Data v w) = v"
| "read_slot (Accessor b g s) = (if g then b else Undefined)"

definition getOwnPropertyDescriptor :: "heap \<Rightarrow> val \<Rightarrow> key \<Rightarrow> descr option" where
  "getOwnPropertyDescriptor h v k =
     (case v of Ref a \<Rightarrow> (case map_of h a of Some ob \<Rightarrow> map_of ob k | None \<Rightarrow> None) | _ \<Rightarrow> None)"

definition hasOwnProperty :: "heap \<Rightarrow> val \<Rightarrow> key \<Rightarrow> bool" where
  "hasOwnProperty h v k = (getOwnPropertyDescriptor h v k \<noteq> None)"

definition propertyIsEnumerable :: "heap \<Rightarrow> val \<Rightarrow> key \<Rightarrow> bool" where
  "propertyIsEnumerable h v k =
     (case getOwnPropertyDescriptor h v k of Some p \<Rightarrow> enumerable p | None \<Rightarrow> False)"

text \<open>\<^verbatim>\<open>v[k]\<close>: throws on \<^verbatim>\<open>null\<close> and \<^verbatim>\<open>undefined\<close>; an absent property reads as
  \<^verbatim>\<open>undefined\<close>.\<close>

definition js_get :: "heap \<Rightarrow> val \<Rightarrow> key \<Rightarrow> exn + val" where
  "js_get h v k =
     (case v of
        Undefined \<Rightarrow> Inl (TypeError ''Cannot read properties of undefined'')
      | Null \<Rightarrow> Inl (TypeError ''Cannot read properties of null'')
      | Ref a \<Rightarrow>
          Inr (case getOwnPropertyDescriptor h v k of
                 Some p \<Rightarrow> read_slot (content p) | None \<Rightarrow> Undefined)
      | _ \<Rightarrow> Inr Undefined)"

text \<open>\<^verbatim>\<open>v[k] = x\<close> in strict mode: a missing property is created (writable, enumerable,
  configurable) at the end; a read-only data property, an accessor without setter and a
  primitive receiver throw; a setter stores into its slot or throws its own error.\<close>

definition js_assign :: "heap \<Rightarrow> val \<Rightarrow> key \<Rightarrow> val \<Rightarrow> exn + heap" where
  "js_assign h v k x =
     (case v of
        Ref a \<Rightarrow>
          (case map_of h a of
             None \<Rightarrow> Inl (TypeError ''Cannot set properties'')
           | Some ob \<Rightarrow>
               (case map_of ob k of
                  None \<Rightarrow> Inr (put_obj a (ob @ [(k, Prop (Data x True) True True)]) h)
                | Some p \<Rightarrow>
                    (case content p of
                       Data y w \<Rightarrow>
                         if w then Inr (put_obj a (put_prop k (Prop (Data x w) (enumerable p) (configurable p)) ob) h)
                         else Inl (TypeError ''Cannot assign to read only property'')
                     | Accessor b g s \<Rightarrow>
                         (case s of
                            None \<Rightarrow> Inl (TypeError ''Cannot set property which has only a getter'')
                          | Some SetSlot \<Rightarrow>
                              Inr (put_obj a (put_prop k (Prop (Accessor x g s) (enumerable p) (configurable p)) ob) h)
                          | Some SetThrow \<Rightarrow> Inl SetterError))))
      | _ \<Rightarrow> Inl (TypeError ''Cannot set properties''))"

text \<open>\<^verbatim>\<open>delete v[k]\<close> in strict mode.\<close>

definition js_delete :: "heap \<Rightarrow> val \<Rightarrow> key \<Rightarrow> exn + heap" where
  "js_delete h v k =
     (case v of
        Ref a \<Rightarrow>
          (case map_of h a of
             None \<Rightarrow> Inr h
           | Some ob \<Rightarrow>
               (case map_of ob k of
                  None \<Rightarrow> Inr h
                | Some p \<Rightarrow>
                    if configurable p then Inr (put_obj a (drop_prop k ob) h)
                    else Inl (TypeError ''Cannot delete property'')))
      | Undefined \<Rightarrow> Inl (TypeError ''Cannot convert undefined or null to object'')
      | Null \<Rightarrow> Inl (TypeError ''Cannot convert undefined or null to object'')
      | _ \<Rightarrow> Inr h)"

text \<open>\<^verbatim>\<open>Object.defineProperty(v, k, {enumerable: b})\<close>.\<close>

definition define_enumerable :: "heap \<Rightarrow> val \<Rightarrow> key \<Rightarrow> bool \<Rightarrow> exn + heap" where
  "define_enumerable h v k b =
     (case v of
        Ref a \<Rightarrow>
          (case map_of h a of
             None \<Rightarrow> Inl (TypeError ''Object.defineProperty called on non-object'')
           | Some ob \<Rightarrow>
               (case map_of ob k of
                  None \<Rightarrow> Inr (put_obj a (ob @ [(k, Prop (Data Undefined False) b False)]) h)
                | Some p \<Rightarrow>
                    if configurable p then Inr (put_obj a (put_prop k (Prop (content p) b True) ob) h)
                    else if enumerable p = b then Inr h
                    else Inl (TypeError ''Cannot redefine property'')))
      | _ \<Rightarrow> Inl (TypeError ''Object.defineProperty called on non-object''))"

text \<open>\<^verbatim>\<open>descriptor.value\<close> and \<^verbatim>\<open>descriptor.set\<close> of a descriptor object.\<close>

fun descriptor_value :: "descr \<Rightarrow> val" where
  "descriptor_value (Prop (Data v w) e c) = v"
| "descriptor_value (Prop (Accessor b g s) e c) = Undefined"

fun descriptor_set :: "descr \<Rightarrow> setter option" where
  "descriptor_set (Prop (Data v w) e c) = None"
| "descriptor_set (Prop (Accessor b g s) e c) = s"

text \<open>\<^verbatim>\<open>descriptor.set(x)\<close>: the setter of the accessor \<open>k\<close> of \<open>v\<close>, called directly.\<close>

definition call_setter :: "heap \<Rightarrow> val \<Rightarrow> key \<Rightarrow> setter \<Rightarrow> val \<Rightarrow> exn + heap" where
  "call_setter h v k s x =
     (case s of
        SetThrow \<Rightarrow> Inl SetterError
      | SetSlot \<Rightarrow>
          (case v of
             Ref a \<Rightarrow>
               (case map_of h a of
                  None \<Rightarrow> Inr h
                | Some ob \<Rightarrow>
                    (case map_of ob k of
                       Some (Prop (Accessor b g s') e c) \<Rightarrow>
                         Inr (put_obj a (put_prop k (Prop (Accessor x g s') e c) ob) h)
                     | _ \<Rightarrow> Inr h))
           | _ \<Rightarrow> Inr h))"

section \<open>The patch reconciler: \<^verbatim>\<open>applyChange\<close>\<close>

text \<open>
  Modelled from the spec: the logging collaborator (module \<^verbatim>\<open>./log\<close>, not among the
  sources), which "receives human-readable reports for every add/remove/update/failure
  event". A report is an event appended to a trace; the events carry the arguments the
  source passes to \<^verbatim>\<open>log\<close> and \<^verbatim>\<open>log.err\<close>.
\<close>

datatype event =
    ErrLocked key
  | ErrAdd key exn
  | Added string val
  | Removed string
  | ErrUpdate key exn
  | Updated string val

datatype outcome = Done | Throw exn | OutOfFuel

type_synonym world = "heap \<times> event list"

text \<open>\<^verbatim>\<open>Array.prototype.forEach\<close> over the keys: an exception of the callback ends the loop.\<close>

fun forEach :: "(key \<Rightarrow> world \<Rightarrow> outcome \<times> world) \<Rightarrow> key list \<Rightarrow> world \<Rightarrow> outcome \<times> world" where
  "forEach f [] s = (Done, s)"
| "forEach f (k # ks) s =
     (case f k s of (Done, s') \<Rightarrow> forEach f ks s' | r \<Rightarrow> r)"

definition locked :: "descr option \<Rightarrow> bool" where
  "locked d = (case d of Some p \<Rightarrow> \<not> configurable p | None \<Rightarrow> False)"

text \<open>The four blocks of the \<^verbatim>\<open>forEach\<close> callback of \<^verbatim>\<open>applyChange\<close> that do not
  recurse, in the order of the source: the locked property, the property that is new or
  hidden in \<^verbatim>\<open>oldObj\<close>, the property missing in \<^verbatim>\<open>newObj\<close>, and the plain update.
  Each \<^verbatim>\<open>try\<close> block catches the exception of its assignment and reports it.\<close>

definition lockedBranch :: "world \<Rightarrow> val \<Rightarrow> key \<Rightarrow> outcome \<times> world" where
  "lockedBranch s newObj key =
     (case s of (h, lg) \<Rightarrow>
        if hasOwnProperty h newObj key then (Done, h, lg @ [ErrLocked key]) else (Done, s))"

definition addBranch :: "world \<Rightarrow> val \<Rightarrow> val \<Rightarrow> string \<Rightarrow> key \<Rightarrow> val \<Rightarrow> outcome \<times> world" where
  "addBranch s oldObj newObj keyPath key nv =
     (case s of (h, lg) \<Rightarrow>
        (case js_assign h oldObj key nv of
           Inl e \<Rightarrow> (Done, h, lg @ [ErrAdd key e])
         | Inr h1 \<Rightarrow>
             (case (if hasOwnProperty h1 oldObj key then define_enumerable h1 oldObj key True
                    else Inr h1) of
                Inl e \<Rightarrow> (Throw e, h1, lg)
              | Inr h2 \<Rightarrow>
                  (case js_get h2 newObj key of
                     Inl e \<Rightarrow> (Throw e, h2, lg)
                   | Inr nv' \<Rightarrow> (Done, h2, lg @ [Added (keyPath @ key) nv'])))))"

definition removeBranch :: "world \<Rightarrow> val \<Rightarrow> string \<Rightarrow> key \<Rightarrow> descr option \<Rightarrow> outcome \<times> world" where
  "removeBranch s oldObj keyPath key descriptor =
     (case s of (h, lg) \<Rightarrow>
        (case descriptor of
           None \<Rightarrow> (Throw (TypeError ''Cannot read properties of undefined''), s)
         | Some d \<Rightarrow>
             if truthy (descriptor_value d) then
               (case js_delete h oldObj key of
                  Inl e \<Rightarrow> (Throw e, s)
                | Inr h1 \<Rightarrow> (Done, h1, lg @ [Removed (keyPath @ key)]))
             else
               (case (case descriptor_set d of
                        Some st \<Rightarrow> call_setter h oldObj key st Undefined
                      | None \<Rightarrow> Inr h) of
                  Inl e \<Rightarrow> (Throw e, s)
                | Inr h1 \<Rightarrow>
                    (case define_enumerable h1 oldObj key False of
                       Inl e \<Rightarrow> (Throw e, h1, lg)
                     | Inr h2 \<Rightarrow> (Done, h2, lg @ [Removed (keyPath @ key)])))))"

definition updateBranch :: "world \<Rightarrow> val \<Rightarrow> val \<Rightarrow> string \<Rightarrow> key \<Rightarrow> val \<Rightarrow> outcome \<times> world" where
  "updateBranch s oldObj newObj keyPath key nv =
     (case s of (h, lg) \<Rightarrow>
        (case js_assign h oldObj key nv of
           Inl e \<Rightarrow> (Done, h, lg @ [ErrUpdate key e])
         | Inr h1 \<Rightarrow>
             (case js_get h1 newObj key of
                Inl e \<Rightarrow> (Throw e, h1, lg)
              | Inr nv' \<Rightarrow> (Done, h1, lg @ [Updated (keyPath @ key) nv']))))"

text \<open>The body of the \<^verbatim>\<open>forEach\<close> callback of \<^verbatim>\<open>applyChange\<close> for one key; \<open>rec\<close> is the
  recursive call \<^verbatim>\<open>exports.applyChange\<close>, which receives \<^verbatim>\<open>key + '/'\<close> as its path.\<close>

definition applyKey ::
  "(world \<Rightarrow> val \<Rightarrow> val \<Rightarrow> string \<Rightarrow> outcome \<times> world) \<Rightarrow> val \<Rightarrow> val \<Rightarrow> string \<Rightarrow> key \<Rightarrow> world
     \<Rightarrow> outcome \<times> world" where
  "applyKey rec oldObj newObj keyPath key s =
     (case js_get (fst s) newObj key of
        Inl e \<Rightarrow> (Throw e, s)
      | Inr nv \<Rightarrow>
     (case js_get (fst s) oldObj key of
        Inl e \<Rightarrow> (Throw e, s)
      | Inr ov \<Rightarrow>
          if strict_eq nv ov then (Done, s)
          else
            let descriptor = getOwnPropertyDescriptor (fst s) oldObj key in
            if locked descriptor then lockedBranch s newObj key
            else if \<not> propertyIsEnumerable (fst s) oldObj key then
              addBranch s oldObj newObj keyPath key nv
            else if \<not> hasOwnProperty (fst s) newObj key then
              removeBranch s oldObj keyPath key descriptor
            else if typeof nv = ''object'' \<and> typeof ov = ''object'' then
              rec s ov nv (key @ ''/'')
            else updateBranch s oldObj newObj keyPath key nv))"

text \<open>
  \<^verbatim>\<open>applyChange(oldObj, newObj, keyPath)\<close>. The recursion follows the object graph, which
  may be cyclic, so the model carries the call depth it may still use; running out of it
  is the outcome \<open>OutOfFuel\<close>, never a result of the program.
\<close>

primrec applyChange :: "nat \<Rightarrow> world \<Rightarrow> val \<Rightarrow> val \<Rightarrow> string \<Rightarrow> outcome \<times> world" where
  "applyChange 0 s oldObj newObj keyPath = (OutOfFuel, s)"
| "applyChange (Suc n) s oldObj newObj keyPath =
     forEach (applyKey (applyChange n) oldObj newObj keyPath) (union_keys (fst s) oldObj newObj) s"

section \<open>The event-registration surface of the server: \<^verbatim>\<open>Server.prototype.on\<close>\<close>

record trigger =
  t_callback :: val
  t_listeners :: "val list"

text \<open>The part of the server object that \<^verbatim>\<open>addTrigger\<close> and \<^verbatim>\<open>on\<close> touch: the
  triggers by event name, and the calls made to trigger callbacks (the callback and the
  event whose trigger it received).\<close>

record server =
  triggers :: "key \<rightharpoonup> trigger"
  fired :: "(val \<times> key) list"

definition addTrigger :: "server \<Rightarrow> key \<Rightarrow> val \<Rightarrow> server" where
  "addTrigger srv event callback =
     srv\<lparr>triggers := (triggers srv)(event \<mapsto> \<lparr>t_callback = callback, t_listeners = []\<rparr>)\<rparr>"

definition on :: "server \<Rightarrow> val \<Rightarrow> val \<Rightarrow> outcome \<times> server" where
  "on srv event callback =
     (if typeof event \<noteq> ''string'' then (Throw (TypeError ''Event needs to be a string''), srv)
      else if typeof callback \<noteq> ''function'' then
        (Throw (TypeError ''Callback needs to be a function''), srv)
      else
        (case event of
           Str e \<Rightarrow>
             (case triggers srv e of
                None \<Rightarrow> (Done, srv)
              | Some t \<Rightarrow>
                  let t1 = t\<lparr>t_listeners := t_listeners t @ [callback]\<rparr>;
                      srv1 = srv\<lparr>triggers := (triggers srv)(e \<mapsto> t1)\<rparr>
                  in if truthy (t_callback t1) then
                       (if typeof (t_callback t1) = ''function'' then
                          (Done, srv1\<lparr>triggers := (triggers srv1)(e \<mapsto> t1\<lparr>t_callback := Null\<rparr>),
                                       fired := fired srv1 @ [(t_callback t1, e)]\<rparr>)
                        else (Throw (TypeError ''callback is not a function''), srv1))
                     else (Done, srv1))
         | _ \<Rightarrow> (Done, srv)))"

text \<open>The listeners registered on a server, over all events.\<close>

definition listeners_of :: "server \<Rightarrow> key \<Rightarrow> val list" where
  "listeners_of srv e = (case triggers srv e of Some t \<Rightarrow> t_listeners t | None \<Rightarrow> [])"

section \<open>The observed tree: \<^verbatim>\<open>DeepObserve\<close> and \<^verbatim>\<open>observe\<close>\<close>

text \<open>
  One binding made by \<^verbatim>\<open>observe(obj, key, callback)\<close>. The objects \<^verbatim>\<open>new DeepObserve\<close>
  creates are the tracked nodes: the top node (number 0, \<^verbatim>\<open>this.top\<close>) and the children
  made by \<^verbatim>\<open>Object.create(this.prototype)\<close>. Each node has the own properties \<^verbatim>\<open>tmp\<close>,
  \<^verbatim>\<open>store\<close>, \<^verbatim>\<open>proxy\<close> and \<^verbatim>\<open>children\<close>, all unset on a new node (the shared prototype holds
  only \<^verbatim>\<open>callback\<close>, \<^verbatim>\<open>top\<close> and the methods). A proxy is known by its target and its
  handler node; \<^verbatim>\<open>children\<close> is assigned by \<^verbatim>\<open>getProxy\<close> before any trap of the node can run,
  so it is modelled as a table that starts empty.
\<close>

record node =
  n_tmp :: val
  n_store :: val
  n_proxy :: "addr option"
  n_children :: "(key \<times> nat) list"

definition blank_node :: node where
  "blank_node = \<lparr>n_tmp = Undefined, n_store = Undefined, n_proxy = None, n_children = []\<rparr>"

text \<open>What a read hands to the program: a value as it is, or a proxy (target, handler).\<close>

datatype view = Plain val | Proxy addr nat

text \<open>The properties the engine keeps on the callback function itself.\<close>

record callback_fields =
  cb_wait :: bool
  cb_key :: key
  cb_store :: val
  cb_tmp :: val

text \<open>
  The state of a binding: the object store and its next unused address; the nodes and the
  next unused node number; the fields on the callback; the number of closures handed to
  \<^verbatim>\<open>process.nextTick\<close> and not yet run; the calls made to the callback, each with its
  argument and the store as it was at the call; and the accessor pair \<^verbatim>\<open>observe\<close> wraps:
  the slot behind it (\<^verbatim>\<open>descriptor.value\<close> for a synthesized pair), whether it has a
  getter, its setter, whether the bound property is enumerable, and what
  \<^verbatim>\<open>obj.propertyIsEnumerable()\<close> (called without argument, so for the key
  \<^verbatim>\<open>"undefined"\<close>) answers on the host.
\<close>

record tracker =
  objs :: heap
  fresh :: addr
  nodes :: "(nat \<times> node) list"
  next_node :: nat
  cb :: callback_fields
  ticks :: nat
  calls :: "(val \<times> heap) list"
  b_value :: val
  b_has_get :: bool
  b_set :: setter
  b_enumerable :: bool
  host_undefined_enumerable :: bool

text \<open>The object literal \<^verbatim>\<open>{}\<close>.\<close>

definition alloc :: "tracker \<Rightarrow> addr \<times> tracker" where
  "alloc t = (fresh t, t\<lparr>objs := put_obj (fresh t) [] (objs t), fresh := Suc (fresh t)\<rparr>)"

text \<open>Nodes by number; a number not yet in the table stands for a node just created.\<close>

primrec put_entry :: "'k \<Rightarrow> 'v \<Rightarrow> ('k \<times> 'v) list \<Rightarrow> ('k \<times> 'v) list" where
  "put_entry k v [] = [(k, v)]"
| "put_entry k v (e # es) = (if fst e = k then (k, v) # es else e # put_entry k v es)"

definition node_at :: "tracker \<Rightarrow> nat \<Rightarrow> node" where
  "node_at t n = (case map_of (nodes t) n of Some x \<Rightarrow> x | None \<Rightarrow> blank_node)"

definition set_node :: "nat \<Rightarrow> node \<Rightarrow> tracker \<Rightarrow> tracker" where
  "set_node n x t = t\<lparr>nodes := put_entry n x (nodes t)\<rparr>"

text \<open>\<^verbatim>\<open>DeepObserve.prototype.getProxy\<close>, called on an object.\<close>

definition getProxy :: "tracker \<Rightarrow> nat \<Rightarrow> addr \<Rightarrow> view \<times> tracker" where
  "getProxy t n a =
     (case n_proxy (node_at t n) of
        Some p \<Rightarrow> (Proxy p n, t)
      | None \<Rightarrow> (Proxy a n, set_node n ((node_at t n)\<lparr>n_children := [], n_proxy := Some a\<rparr>) t))"

text \<open>\<^verbatim>\<open>DeepObserve.prototype.topGetter\<close>, on the top node.\<close>

definition topGetter :: "tracker \<Rightarrow> val \<Rightarrow> view \<times> tracker" where
  "topGetter t v =
     (if \<not> isObj v then (Plain v, t)
      else (case v of Ref a \<Rightarrow> getProxy t 0 a | _ \<Rightarrow> (Plain v, t)))"

text \<open>The closure given to \<^verbatim>\<open>process.nextTick\<close>: call the callback with \<^verbatim>\<open>this.top.store\<close>,
  give the top node a new empty store, clear \<^verbatim>\<open>callback.wait\<close>.\<close>

definition flush :: "tracker \<Rightarrow> tracker" where
  "flush t =
     (let t1 = t\<lparr>calls := calls t @ [(n_store (node_at t 0), objs t)]\<rparr>;
          (a, t2) = alloc t1;
          t3 = set_node 0 ((node_at t2 0)\<lparr>n_store := Ref a\<rparr>) t2
      in t3\<lparr>cb := (cb t3)\<lparr>cb_wait := False\<rparr>\<rparr>)"

text \<open>One scheduling opportunity: the next scheduled closure runs, if there is one.\<close>

definition tick :: "tracker \<Rightarrow> tracker" where
  "tick t = (if ticks t = 0 then t else flush (t\<lparr>ticks := ticks t - 1\<rparr>))"

text \<open>\<^verbatim>\<open>DeepObserve.prototype.nextCallback\<close> on node \<open>n\<close>: the object the caller writes into.\<close>

definition nextCallback :: "tracker \<Rightarrow> nat \<Rightarrow> (exn + val) \<times> tracker" where
  "nextCallback t n =
     (let t1 = set_node n ((node_at t n)\<lparr>n_proxy := None\<rparr>) t;
          t2 = (if \<not> cb_wait (cb t1)
                then t1\<lparr>cb := (cb t1)\<lparr>cb_wait := True\<rparr>, ticks := Suc (ticks t1)\<rparr>
                else t1)
      in if truthy (n_store (node_at t2 n)) then (Inr (n_store (node_at t2 n)), t2)
         else
           (case js_assign (objs t2) (cb_store (cb t2)) (cb_key (cb t2)) (cb_tmp (cb t2)) of
              Inl e \<Rightarrow> (Inl e, t2)
            | Inr h \<Rightarrow> (Inr (n_tmp (node_at t2 n)), t2\<lparr>objs := h\<rparr>)))"

text \<open>The \<^verbatim>\<open>get\<close> trap of node \<open>n\<close>, whose proxy wraps \<open>target\<close>.\<close>

definition trap_get :: "tracker \<Rightarrow> nat \<Rightarrow> addr \<Rightarrow> key \<Rightarrow> (exn + view) \<times> tracker" where
  "trap_get t n target key =
     (case js_get (objs t) (Ref target) key of
        Inl e \<Rightarrow> (Inl e, t)
      | Inr v \<Rightarrow>
          if \<not> isObj v then (Inr (Plain v), t)
          else
            let (c, t1) =
                  (case map_of (n_children (node_at t n)) key of
                     Some c \<Rightarrow> (c, t)
                   | None \<Rightarrow>
                       (next_node t,
                        (set_node (next_node t) blank_node
                          (set_node n ((node_at t n)\<lparr>n_children := put_entry key (next_node t) (n_children (node_at t n))\<rparr>) t))
                        \<lparr>next_node := Suc (next_node t)\<rparr>));
                (a, t2) = alloc t1;
                t3 = set_node c ((node_at t2 c)\<lparr>n_tmp := Ref a\<rparr>) t2
            in
              if truthy (n_store (node_at t3 n)) then
                (case js_get (objs t3) (n_store (node_at t3 n)) key of
                   Inl e \<Rightarrow> (Inl e, t3)
                 | Inr sv \<Rightarrow>
                     let t4 = (set_node c ((node_at t3 c)\<lparr>n_store := sv\<rparr>) t3)
                                \<lparr>cb := (cb t3)\<lparr>cb_key := key, cb_store := n_store (node_at t3 n), cb_tmp := Ref a\<rparr>\<rparr>
                     in (case v of Ref x \<Rightarrow> (case getProxy t4 c x of (p, t5) \<Rightarrow> (Inr p, t5))
                                 | _ \<Rightarrow> (Inr (Plain v), t4)))
              else
                (case js_assign (objs t3) (n_tmp (node_at t3 n)) key (Ref a) of
                   Inl e \<Rightarrow> (Inl e, t3)
                 | Inr h \<Rightarrow>
                     (case v of Ref x \<Rightarrow> (case getProxy (t3\<lparr>objs := h\<rparr>) c x of (p, t5) \<Rightarrow> (Inr p, t5))
                              | _ \<Rightarrow> (Inr (Plain v), t3\<lparr>objs := h\<rparr>))))"

text \<open>The \<^verbatim>\<open>set\<close> trap: \<^verbatim>\<open>this.nextCallback()[key] = value; target[key] = value\<close>.\<close>

definition trap_set :: "tracker \<Rightarrow> nat \<Rightarrow> addr \<Rightarrow> key \<Rightarrow> val \<Rightarrow> (exn + unit) \<times> tracker" where
  "trap_set t n target key x =
     (case nextCallback t n of
        (Inl e, t1) \<Rightarrow> (Inl e, t1)
      | (Inr dst, t1) \<Rightarrow>
          (case js_assign (objs t1) dst key x of
             Inl e \<Rightarrow> (Inl e, t1)
           | Inr h \<Rightarrow>
               (case js_assign h (Ref target) key x of
                  Inl e \<Rightarrow> (Inl e, t1\<lparr>objs := h\<rparr>)
                | Inr h' \<Rightarrow> (Inr (), t1\<lparr>objs := h'\<rparr>))))"

text \<open>The \<^verbatim>\<open>deleteProperty\<close> trap: \<^verbatim>\<open>this.nextCallback()[key] = null; delete target[key]\<close>.\<close>

definition trap_delete :: "tracker \<Rightarrow> nat \<Rightarrow> addr \<Rightarrow> key \<Rightarrow> (exn + unit) \<times> tracker" where
  "trap_delete t n target key =
     (case nextCallback t n of
        (Inl e, t1) \<Rightarrow> (Inl e, t1)
      | (Inr dst, t1) \<Rightarrow>
          (case js_assign (objs t1) dst key Null of
             Inl e \<Rightarrow> (Inl e, t1)
           | Inr h \<Rightarrow>
               (case js_delete h (Ref target) key of
                  Inl e \<Rightarrow> (Inl e, t1\<lparr>objs := h\<rparr>)
                | Inr h' \<Rightarrow> (Inr (), t1\<lparr>objs := h'\<rparr>))))"

text \<open>
  A read through a proxy is the engine's \<^verbatim>\<open>[[Get]]\<close> of the proxy: it calls the \<^verbatim>\<open>get\<close>
  trap and then checks the answer against the target. A data property of the target that
  is read-only and non-configurable must be answered with its own value, and a
  non-configurable accessor without getter with \<^verbatim>\<open>undefined\<close>; any other answer is a
  \<^verbatim>\<open>TypeError\<close>. The \<^verbatim>\<open>get\<close> trap above answers an object with a proxy, never with the
  object, so a read-only, non-configurable property that holds an object cannot be read
  through a proxy. The corresponding checks on the \<^verbatim>\<open>set\<close> and \<^verbatim>\<open>deleteProperty\<close> traps
  never fire: these traps answer \<^verbatim>\<open>true\<close> only after \<^verbatim>\<open>target[key] = value\<close> or
  \<^verbatim>\<open>delete target[key]\<close> has gone through in strict mode, which throws in every case the
  engine would reject.
\<close>

definition read_only_locked :: "descr \<Rightarrow> bool" where
  "read_only_locked p =
     (\<not> configurable p \<and> (case content p of Data v w \<Rightarrow> \<not> w | Accessor b g s \<Rightarrow> False))"

definition get_invariant :: "heap \<Rightarrow> addr \<Rightarrow> key \<Rightarrow> view \<Rightarrow> bool" where
  "get_invariant h target key r =
     (case getOwnPropertyDescriptor h (Ref target) key of
        None \<Rightarrow> True
      | Some p \<Rightarrow>
          configurable p \<or>
          (case content p of
             Data v w \<Rightarrow> w \<or> r = Plain v
           | Accessor b g s \<Rightarrow> g \<or> r = Plain Undefined))"

definition proxy_get :: "tracker \<Rightarrow> nat \<Rightarrow> addr \<Rightarrow> key \<Rightarrow> (exn + view) \<times> tracker" where
  "proxy_get t n target key =
     (case trap_get t n target key of
        (Inl e, t') \<Rightarrow> (Inl e, t')
      | (Inr r, t') \<Rightarrow>
          if get_invariant (objs t') target key r then (Inr r, t')
          else (Inl (TypeError ''proxy get: answer differs from the read-only property''), t'))"

text \<open>
  \<^verbatim>\<open>observe(obj, key, callback)\<close> on a host whose property \<^verbatim>\<open>key\<close> has the descriptor \<open>d\<close>
  (\<open>None\<close>: no such property), in the store \<open>h\<close> with next unused address \<open>nxt\<close>; \<open>ue\<close> is
  the answer of \<^verbatim>\<open>obj.propertyIsEnumerable()\<close>. A getter-only property is left alone
  (\<open>Inr None\<close>); redefining a non-configurable property throws. \<^verbatim>\<open>new DeepObserve\<close> gives
  the top node its empty store.
\<close>

definition observe :: "heap \<Rightarrow> addr \<Rightarrow> descr option \<Rightarrow> bool \<Rightarrow> exn + tracker option" where
  "observe h nxt d ue =
     (let getter_only = (case d of Some (Prop (Accessor b g None) e c) \<Rightarrow> g | _ \<Rightarrow> False);
          (v, g, s) = (case d of
                         Some (Prop (Accessor b g (Some st)) e c) \<Rightarrow> (b, g, st)
                       | Some (Prop (Data x w) e c) \<Rightarrow> (x, True, SetSlot)
                       | _ \<Rightarrow> (Undefined, True, SetSlot))
      in if getter_only then Inr None
         else if locked d then Inl (TypeError ''Cannot redefine property'')
         else Inr (Some
           \<lparr>objs = put_obj nxt [] h, fresh = Suc nxt,
            nodes = [(0, blank_node\<lparr>n_store := Ref nxt\<rparr>)], next_node = 1,
            cb = \<lparr>cb_wait = False, cb_key = ''undefined'', cb_store = Undefined, cb_tmp = Undefined\<rparr>,
            ticks = 0, calls = [],
            b_value = v, b_has_get = g, b_set = s,
            b_enumerable = (case d of Some p \<Rightarrow> enumerable p | None \<Rightarrow> False),
            host_undefined_enumerable = ue\<rparr>))"

text \<open>Reading the bound property: the installed getter.\<close>

definition bound_get :: "tracker \<Rightarrow> view \<times> tracker" where
  "bound_get t = (if b_has_get t then topGetter t (b_value t) else (Plain Undefined, t))"

text \<open>Writing the bound property: the installed setter, that is \<^verbatim>\<open>setter.mid(value)\<close> and
  then \<^verbatim>\<open>descriptor.set(value)\<close>.\<close>

definition bound_set :: "tracker \<Rightarrow> val \<Rightarrow> (exn + unit) \<times> tracker" where
  "bound_set t x =
     (let t1 = (if \<not> host_undefined_enumerable t then t\<lparr>b_enumerable := True\<rparr> else t);
          t2 = (if n_proxy (node_at t1 0) \<noteq> None then set_node 0 ((node_at t1 0)\<lparr>n_proxy := None\<rparr>) t1 else t1);
          t3 = (if cb_wait (cb t2) then set_node 0 ((node_at t2 0)\<lparr>n_store := x\<rparr>) t2
                else t2\<lparr>calls := calls t2 @ [(x, objs t2)]\<rparr>)
      in (case b_set t3 of
            SetSlot \<Rightarrow> (Inr (), t3\<lparr>b_value := x\<rparr>)
          | SetThrow \<Rightarrow> (Inl SetterError, t3)))"

subsection \<open>Programs over a binding\<close>

text \<open>Property access, assignment and deletion on what a read returned.\<close>

fun view_get :: "tracker \<Rightarrow> view \<Rightarrow> key \<Rightarrow> (exn + view) \<times> tracker" where
  "view_get t (Proxy a n) k = proxy_get t n a k"
| "view_get t (Plain v) k =
     (case js_get (objs t) v k of Inl e \<Rightarrow> (Inl e, t) | Inr x \<Rightarrow> (Inr (Plain x), t))"

fun view_set :: "tracker \<Rightarrow> view \<Rightarrow> key \<Rightarrow> val \<Rightarrow> (exn + unit) \<times> tracker" where
  "view_set t (Proxy a n) k x = trap_set t n a k x"
| "view_set t (Plain v) k x =
     (case js_assign (objs t) v k x of Inl e \<Rightarrow> (Inl e, t) | Inr h \<Rightarrow> (Inr (), t\<lparr>objs := h\<rparr>))"

fun view_delete :: "tracker \<Rightarrow> view \<Rightarrow> key \<Rightarrow> (exn + unit) \<times> tracker" where
  "view_delete t (Proxy a n) k = trap_delete t n a k"
| "view_delete t (Plain v) k =
     (case js_delete (objs t) v k of Inl e \<Rightarrow> (Inl e, t) | Inr h \<Rightarrow> (Inr (), t\<lparr>objs := h\<rparr>))"

text \<open>\<^verbatim>\<open>v.k1.k2...\<close>: one property read after the other.\<close>

fun walk :: "tracker \<Rightarrow> view \<Rightarrow> key list \<Rightarrow> (exn + view) \<times> tracker" where
  "walk t v [] = (Inr v, t)"
| "walk t v (k # ks) =
     (case view_get t v k of (Inl e, t') \<Rightarrow> (Inl e, t') | (Inr v', t') \<Rightarrow> walk t' v' ks)"

text \<open>
  The statements of a program that mutates the observed value: \<^verbatim>\<open>host.key.k1...kn.k = x\<close>,
  \<^verbatim>\<open>delete host.key.k1...kn.k\<close>, and the write \<^verbatim>\<open>host.key = x\<close> of the bound property
  itself.
\<close>

datatype statement = Assign "key list" key val | Delete "key list" key | Write val

fun exec :: "tracker \<Rightarrow> statement \<Rightarrow> (exn + unit) \<times> tracker" where
  "exec t (Assign ks k x) =
     (case bound_get t of (v, t1) \<Rightarrow>
        (case walk t1 v ks of (Inl e, t2) \<Rightarrow> (Inl e, t2) | (Inr v', t2) \<Rightarrow> view_set t2 v' k x))"
| "exec t (Delete ks k) =
     (case bound_get t of (v, t1) \<Rightarrow>
        (case walk t1 v ks of (Inl e, t2) \<Rightarrow> (Inl e, t2) | (Inr v', t2) \<Rightarrow> view_delete t2 v' k))"
| "exec t (Write x) = bound_set t x"

text \<open>Statements run one after the other in the same scheduling turn; an exception ends
  the run.\<close>

fun run :: "tracker \<Rightarrow> statement list \<Rightarrow> (exn + unit) \<times> tracker" where
  "run t [] = (Inr (), t)"
| "run t (c # cs) = (case exec t c of (Inl e, t') \<Rightarrow> (Inl e, t') | (Inr u, t') \<Rightarrow> run t' cs)"

text \<open>A scheduling turn: the synchronous statements, then the scheduled closures.\<close>

definition turn :: "tracker \<Rightarrow> statement list \<Rightarrow> (exn + unit) \<times> tracker" where
  "turn t cs = (case run t cs of (r, t') \<Rightarrow> (r, (tick ^^ ticks t') t'))"

subsection \<open>Reading a delivered diff\<close>

text \<open>A tree of keys with primitive leaves, and what it means for a value of the store to
  be exactly that tree: an object has the keys of the node and no others, all enumerable,
  in the order of the node, each holding the subtree.\<close>

datatype tree = Leaf val | Node "(key \<times> tree) list"

definition all_keys :: "heap \<Rightarrow> val \<Rightarrow> key list" where
  "all_keys h v =
     (case v of Ref a \<Rightarrow> (case map_of h a of Some ob \<Rightarrow> own_keys ob | None \<Rightarrow> []) | _ \<Rightarrow> [])"

fun reads_as :: "heap \<Rightarrow> val \<Rightarrow> tree \<Rightarrow> bool"
  and reads_fields :: "heap \<Rightarrow> val \<Rightarrow> (key \<times> tree) list \<Rightarrow> bool" where
  "reads_as h v (Leaf x) = (v = x \<and> \<not> isObj x)"
| "reads_as h v (Node kts) =
     (isObj v \<and> spread_keys h v = map fst kts \<and> all_keys h v = map fst kts
       \<and> reads_fields h v kts)"
| "reads_fields h v [] = True"
| "reads_fields h v (kt # kts) =
     ((case js_get h v (fst kt) of Inl e \<Rightarrow> False | Inr x \<Rightarrow> reads_as h x (snd kt))
       \<and> reads_fields h v kts)"

text \<open>The diffs the callback has received, each read in the store of its call.\<close>

definition delivered :: "tracker \<Rightarrow> tree \<Rightarrow> bool list" where
  "delivered t d = map (\<lambda>c. reads_as (snd c) (fst c) d) (calls t)"

section \<open>Auxiliary notions and example stores\<close>






definition recursion_probe :: "world \<Rightarrow> val \<Rightarrow> val \<Rightarrow> string \<Rightarrow> outcome \<times> world" where
  "recursion_probe s ov nv p = (Throw (TypeError (''recursive call with path '' @ p)), s)"

definition shared_child :: heap where
  "shared_child = [(10, [(''a'', Prop (Data (Ref 30) True) True True)]),
                   (20, [(''a'', Prop (Data (Ref 30) True) True True)]),
                   (30, [(''b'', Prop (Data (Num 1) True) True True)])]"

definition nested_example :: heap where
  "nested_example = [(10, [(''a'', Prop (Data (Ref 11) True) True True)]),
                     (11, [(''b'', Prop (Data (Ref 12) True) True True)]),
                     (12, [(''c'', Prop (Data (Num 1) True) True True)]),
                     (20, [(''a'', Prop (Data (Ref 21) True) True True)]),
                     (21, [(''b'', Prop (Data (Ref 22) True) True True)]),
                     (22, [(''c'', Prop (Data (Num 2) True) True True)])]"

definition empty_child :: heap where
  "empty_child = [(10, [(''a'', Prop (Data (Ref 30) True) True True),
                              (''z'', Prop (Data (Num 1) True) True True)]),
                  (20, [(''a'', Prop (Data Null True) True True),
                              (''z'', Prop (Data (Num 2) True) True True)]),
                  (30, [])]"

definition null_leaf :: heap where
  "null_leaf = [(10, [(''a'', Prop (Data (Ref 30) True) True True),
                            (''z'', Prop (Data (Num 1) True) True True)]),
                (20, [(''a'', Prop (Data Null True) True True),
                            (''z'', Prop (Data (Num 2) True) True True)]),
                (30, [(''p'', Prop (Data (Num 1) True) True True)])]"

definition falsy_field :: heap where
  "falsy_field = [(10, [(''y'', Prop (Data (Num 0) True) True True)]),
                  (20, []),
                  (30, [(''y'', Prop (Data (Num 0) True) True True)])]"

definition nested_tree :: heap where
  "nested_tree = [(1, [(''a'', Prop (Data (Ref 2) True) True True),
                       (''s'', Prop (Data (Num 1) True) True True)]),
                  (2, [(''b'', Prop (Data (Ref 3) True) True True),
                       (''x'', Prop (Data (Ref 4) True) True True)]),
                  (3, [(''c'', Prop (Data (Num 0) True) True True),
                       (''d'', Prop (Data (Num 0) True) True True)]),
                  (4, [(''y'', Prop (Data (Num 0) True) True True)])]"

definition nested_binding :: tracker where
  "nested_binding =
     \<lparr>objs = nested_tree @ [(5, [])], fresh = 6,
      nodes = [(0, \<lparr>n_tmp = Undefined, n_store = Ref 5, n_proxy = None, n_children = []\<rparr>)],
      next_node = 1,
      cb = \<lparr>cb_wait = False, cb_key = ''undefined'', cb_store = Undefined, cb_tmp = Undefined\<rparr>,
      ticks = 0, calls = [], b_value = Ref 1, b_has_get = True, b_set = SetSlot,
      b_enumerable = True, host_undefined_enumerable = False\<rparr>"

definition first_turn :: "statement list" where
  "first_turn = [Assign [''a'', ''b''] ''c'' (Num 1), Assign [''a'', ''b''] ''d'' (Num 2)]"

definition first_diff_store :: heap where
  "first_diff_store =
     [(1, [(''a'', Prop (Data (Ref 2) True) True True), (''s'', Prop (Data (Num 1) True) True True)]),
      (2, [(''b'', Prop (Data (Ref 3) True) True True), (''x'', Prop (Data (Ref 4) True) True True)]),
      (3, [(''c'', Prop (Data (Num 1) True) True True), (''d'', Prop (Data (Num 2) True) True True)]),
      (4, [(''y'', Prop (Data (Num 0) True) True True)]),
      (5, [(''a'', Prop (Data (Ref 6) True) True True)]),
      (6, [(''b'', Prop (Data (Ref 7) True) True True)]),
      (7, [(''c'', Prop (Data (Num 1) True) True True), (''d'', Prop (Data (Num 2) True) True True)]),
      (8, []), (9, [])]"

definition after_first_turn :: tracker where
  "after_first_turn =
     \<lparr>objs = first_diff_store @ [(10, [])], fresh = 11,
      nodes = [(0, \<lparr>n_tmp = Undefined, n_store = Ref 10, n_proxy = Some 1, n_children = [(''a'', 1)]\<rparr>),
               (1, \<lparr>n_tmp = Ref 8, n_store = Ref 6, n_proxy = Some 2, n_children = [(''b'', 2)]\<rparr>),
               (2, \<lparr>n_tmp = Ref 9, n_store = Ref 7, n_proxy = None, n_children = []\<rparr>)],
      next_node = 3,
      cb = \<lparr>cb_wait = False, cb_key = ''b'', cb_store = Ref 6, cb_tmp = Ref 9\<rparr>,
      ticks = 0, calls = [(Ref 5, first_diff_store)],
      b_value = Ref 1, b_has_get = True, b_set = SetSlot,
      b_enumerable = True, host_undefined_enumerable = False\<rparr>"

definition second_turn :: "statement list" where
  "second_turn = [Assign [''a'', ''b''] ''c'' (Num 3), Assign [] ''s'' (Num 4), Delete [''a'', ''x''] ''y'']"


definition pending_binding :: tracker where
  "pending_binding =
     \<lparr>objs = [(1, [(''a'', Prop (Data (Ref 2) True) True True), (''s'', Prop (Data (Num 2) True) True True)]),
              (2, [(''b'', Prop (Data (Ref 3) True) True True), (''x'', Prop (Data (Ref 4) True) True True)]),
              (3, [(''c'', Prop (Data (Num 0) True) True True), (''d'', Prop (Data (Num 0) True) True True)]),
              (4, [(''y'', Prop (Data (Num 0) True) True True)]),
              (5, [(''s'', Prop (Data (Num 2) True) True True)])],
      fresh = 6,
      nodes = [(0, \<lparr>n_tmp = Undefined, n_store = Ref 5, n_proxy = None, n_children = []\<rparr>)],
      next_node = 1,
      cb = \<lparr>cb_wait = True, cb_key = ''undefined'', cb_store = Undefined, cb_tmp = Undefined\<rparr>,
      ticks = 1, calls = [], b_value = Ref 1, b_has_get = True, b_set = SetSlot,
      b_enumerable = True, host_undefined_enumerable = False\<rparr>"

definition quiet :: "tracker \<Rightarrow> tracker \<Rightarrow> bool" where
  "quiet t t' = (calls t' = calls t \<and> ticks t' = ticks t \<and> cb_wait (cb t') = cb_wait (cb t))"

definition scheduled_once :: "tracker \<Rightarrow> bool" where
  "scheduled_once t = (ticks t = (if cb_wait (cb t) then 1 else 0))"

fun is_mutation :: "statement \<Rightarrow> bool" where
  "is_mutation (Write x) = False"
| "is_mutation c = True"





definition read_only_tree :: heap where
  "read_only_tree = [(1, [(''a'', Prop (Data (Ref 2) False) True False)]),
                     (2, [(''b'', Prop (Data (Num 1) True) True True)])]"

definition read_only_binding :: tracker where
  "read_only_binding =
     \<lparr>objs = read_only_tree @ [(3, [])], fresh = 4,
      nodes = [(0, \<lparr>n_tmp = Undefined, n_store = Ref 3, n_proxy = None, n_children = []\<rparr>)],
      next_node = 1,
      cb = \<lparr>cb_wait = False, cb_key = ''undefined'', cb_store = Undefined, cb_tmp = Undefined\<rparr>,
      ticks = 0, calls = [], b_value = Ref 1, b_has_get = True, b_set = SetSlot,
      b_enumerable = True, host_undefined_enumerable = False\<rparr>"

section \<open>Theorems\<close>

subsection \<open>The patch reconciler\<close>

lemma map_of_put_prop: "map_of (put_prop k p ob) k' = (if k' = k then Some p else map_of ob k')"
  by (induction ob) auto

lemma map_of_put_obj [simp]: "map_of (put_obj a ob h) a' = (if a' = a then Some ob else map_of h a')"
  by (induction h) auto


lemma map_of_snoc: "map_of ob k = None \<Longrightarrow> map_of (ob @ [(k, p)]) k' = (if k' = k then Some p else map_of ob k')"
  by (induction ob) auto



























lemma js_get_own:
  "getOwnPropertyDescriptor h v k = Some d \<Longrightarrow> js_get h v k = Inr (read_slot (content d))"
  by (cases v) (auto simp: js_get_def getOwnPropertyDescriptor_def)







lemma no_recursive_call:
  assumes "js_get h newObj key = Inr nv" and "js_get h oldObj key = Inr ov"
    and "nv = ov \<or> locked (getOwnPropertyDescriptor h oldObj key)
           \<or> \<not> propertyIsEnumerable h oldObj key \<or> \<not> hasOwnProperty h newObj key
           \<or> typeof nv \<noteq> ''object'' \<or> typeof ov \<noteq> ''object''"
  shows "applyKey rec oldObj newObj keyPath key (h, lg) = applyKey rec' oldObj newObj keyPath key (h, lg)"
  using assms by (auto simp: applyKey_def strict_eq_def Let_def)

text \<open>The same object on both sides: the callback returns at the identity check, and the
  probe standing for the recursive function is never called.\<close>

lemma identical_objects_not_recursed:
  "js_get shared_child (Ref 10) ''a'' = Inr (Ref 30)
   \<and> js_get shared_child (Ref 20) ''a'' = Inr (Ref 30)
   \<and> applyKey recursion_probe (Ref 10) (Ref 20) [] ''a'' (shared_child, []) = (Done, shared_child, [])"
  by (simp add: applyKey_def js_get_def getOwnPropertyDescriptor_def shared_child_def strict_eq_def)

text \<open>
  Claim C6 fails on the code below the top level, at \<^verbatim>\<open>{a: {b: {c: 1}}}\<close> reconciled
  against \<^verbatim>\<open>{a: {b: {c: 2}}}\<close>. At the key \<^verbatim>\<open>a\<close> of the top level (empty prefix) the
  recursive call receives \<^verbatim>\<open>a/\<close>. Inside it, at the key \<^verbatim>\<open>b\<close> with the prefix \<^verbatim>\<open>a/\<close>,
  both values are non-null objects and the recursive call is made, but the path it
  receives is \<^verbatim>\<open>b/\<close>, not \<^verbatim>\<open>a/b/\<close> (the probe standing for the recursive function throws,
  naming the path it was given). The whole reconciliation therefore updates \<^verbatim>\<open>a.b.c\<close> and
  reports it as \<^verbatim>\<open>b/c\<close>: the path of the report does not start at the root.
\<close>

theorem recursive_call_drops_path_prefix:
  "js_get nested_example (Ref 10) ''a'' = Inr (Ref 11)
   \<and> js_get nested_example (Ref 20) ''a'' = Inr (Ref 21)
   \<and> applyKey recursion_probe (Ref 10) (Ref 20) [] ''a'' (nested_example, [])
       = (Throw (TypeError ''recursive call with path a/''), nested_example, [])
   \<and> js_get nested_example (Ref 11) ''b'' = Inr (Ref 12)
   \<and> js_get nested_example (Ref 21) ''b'' = Inr (Ref 22)
   \<and> applyKey recursion_probe (Ref 11) (Ref 21) ''a/'' ''b'' (nested_example, [])
       = (Throw (TypeError ''recursive call with path b/''), nested_example, [])
   \<and> fst (applyChange 3 (nested_example, []) (Ref 10) (Ref 20) []) = Done
   \<and> snd (snd (applyChange 3 (nested_example, []) (Ref 10) (Ref 20) [])) = [Updated ''b/c'' (Num 2)]
   \<and> js_get (fst (snd (applyChange 3 (nested_example, []) (Ref 10) (Ref 20) []))) (Ref 12) ''c''
       = Inr (Num 2)"
  by (intro conjI; code_simp)

lemma length_key_order: "length (key_order ks) = length ks"
proof -
  have "(\<lambda>k. index_of k = None) = (\<lambda>k. \<not> index_of k \<noteq> None)" by simp
  then show ?thesis
    unfolding key_order_def
    by (simp only: length_append length_sort sum_length_filter_compl)
qed

lemma key_order_Nil: "key_order ks = [] \<longleftrightarrow> ks = []"
  using length_key_order [of ks] by (metis length_0_conv)

lemma applyChange_null_incoming:
  assumes "spread_keys h (Ref c) \<noteq> []"
  shows "applyChange (Suc n) (h, lg) (Ref c) Null p
           = (Throw (TypeError ''Cannot read properties of null''), h, lg)"
proof -
  have "union_keys h (Ref c) Null = key_order (spread_keys h (Ref c))"
    by (simp add: union_keys_def Let_def spread_keys_def)
  with assms have "union_keys h (Ref c) Null \<noteq> []"
    by (simp add: key_order_Nil)
  then obtain k ks where ks: "union_keys h (Ref c) Null = k # ks"
    by (cases "union_keys h (Ref c) Null") simp_all
  have "applyKey (applyChange n) (Ref c) Null p k (h, lg)
          = (Throw (TypeError ''Cannot read properties of null''), h, lg)"
    by (simp add: applyKey_def js_get_def)
  then show ?thesis
    by (simp add: ks)
qed

text \<open>
  Claim C10 (as amended). A key whose previous property is unlocked and enumerable and
  holds an object with at least one own enumerable key, and for which the incoming object
  holds \<^verbatim>\<open>null\<close>: the callback is the recursive call with \<^verbatim>\<open>null\<close> as the incoming tree,
  which throws a \<^verbatim>\<open>TypeError\<close> at its first key; the exception leaves the loop, the store
  and the reports are as they were when the key was reached, and the remaining keys
  \<open>ks\<close> are not reconciled.
\<close>

theorem null_leaf_against_object_throws:
  assumes old: "getOwnPropertyDescriptor h oldObj key = Some d" and conf: "configurable d"
    and enum: "enumerable d" and child: "read_slot (content d) = Ref c"
    and keys: "spread_keys h (Ref c) \<noteq> []"
    and new: "getOwnPropertyDescriptor h newObj key = Some d'" and null: "read_slot (content d') = Null"
  shows "applyKey (applyChange (Suc n)) oldObj newObj keyPath key (h, lg)
           = applyChange (Suc n) (h, lg) (Ref c) Null (key @ ''/'')
       \<and> forEach (applyKey (applyChange (Suc n)) oldObj newObj keyPath) (key # ks) (h, lg)
           = (Throw (TypeError ''Cannot read properties of null''), h, lg)"
proof -
  have step: "applyKey (applyChange (Suc n)) oldObj newObj keyPath key (h, lg)
                = applyChange (Suc n) (h, lg) (Ref c) Null (key @ ''/'')"
    using old conf enum child new null
    by (simp add: applyKey_def js_get_own [OF old] js_get_own [OF new] strict_eq_def locked_def
        propertyIsEnumerable_def hasOwnProperty_def del: applyChange.simps)
  moreover have "forEach (applyKey (applyChange (Suc n)) oldObj newObj keyPath) (key # ks) (h, lg)
           = (Throw (TypeError ''Cannot read properties of null''), h, lg)"
    by (simp add: step applyChange_null_incoming [OF keys] del: applyChange.simps)
  ultimately show ?thesis by simp
qed

text \<open>
  \<^verbatim>\<open>{a: {p: 1}, z: 1}\<close> against \<^verbatim>\<open>{a: null, z: 2}\<close>: the call throws and \<^verbatim>\<open>z\<close> is never
  reached.
\<close>

theorem null_leaf_witness:
  "getOwnPropertyDescriptor null_leaf (Ref 10) ''a'' = Some (Prop (Data (Ref 30) True) True True)
   \<and> spread_keys null_leaf (Ref 30) \<noteq> []
   \<and> getOwnPropertyDescriptor null_leaf (Ref 20) ''a'' = Some (Prop (Data Null True) True True)
   \<and> applyChange (Suc (Suc 0)) (null_leaf, []) (Ref 10) (Ref 20) []
       = (Throw (TypeError ''Cannot read properties of null''), null_leaf, [])"
proof -
  have d0: "getOwnPropertyDescriptor null_leaf (Ref 10) ''a'' = Some (Prop (Data (Ref 30) True) True True)"
    and d1: "getOwnPropertyDescriptor null_leaf (Ref 20) ''a'' = Some (Prop (Data Null True) True True)"
    by (simp_all add: null_leaf_def getOwnPropertyDescriptor_def)
  have sk: "spread_keys null_leaf (Ref 30) \<noteq> []"
    by code_simp
  have uk: "union_keys null_leaf (Ref 10) (Ref 20) = [''a'', ''z'']"
    by code_simp
  have c: "configurable (Prop (Data (Ref 30) True) True True)"
    "enumerable (Prop (Data (Ref 30) True) True True)"
    "read_slot (content (Prop (Data (Ref 30) True) True True)) = Ref 30"
    "read_slot (content (Prop (Data Null True) True True)) = Null"
    by simp_all
  have "forEach (applyKey (applyChange (Suc 0)) (Ref 10) (Ref 20) []) [''a'', ''z''] (null_leaf, [])
          = (Throw (TypeError ''Cannot read properties of null''), null_leaf, [])"
    by (rule conjunct2 [OF null_leaf_against_object_throws [OF d0 c(1) c(2) c(3) sk d1 c(4)]])
  then have "applyChange (Suc (Suc 0)) (null_leaf, []) (Ref 10) (Ref 20) []
       = (Throw (TypeError ''Cannot read properties of null''), null_leaf, [])"
    by (simp only: applyChange.simps fst_conv uk)
  with d0 d1 sk show ?thesis by simp
qed

text \<open>
  Claim C10 as stated fails where the previous value is an object without enumerable
  keys: \<^verbatim>\<open>{a: {}, z: 1}\<close> against \<^verbatim>\<open>{a: null, z: 2}\<close> recurses with \<^verbatim>\<open>null\<close>, finds no
  key to read, returns, and goes on to update \<^verbatim>\<open>z\<close>.
\<close>

theorem null_leaf_against_empty_object_counterexample:
  "js_get empty_child (Ref 10) ''a'' = Inr (Ref 30)
   \<and> js_get empty_child (Ref 20) ''a'' = Inr Null
   \<and> fst (applyChange 2 (empty_child, []) (Ref 10) (Ref 20) []) = Done
   \<and> snd (snd (applyChange 2 (empty_child, []) (Ref 10) (Ref 20) [])) = [Updated ''z'' (Num 2)]
   \<and> js_get (fst (snd (applyChange 2 (empty_child, []) (Ref 10) (Ref 20) []))) (Ref 10) ''z'' = Inr (Num 2)"
  by code_simp


text \<open>
  Claim C7 fails on the code at \<^verbatim>\<open>T = {y: 0}\<close>, \<^verbatim>\<open>T2 = {}\<close>, \<^verbatim>\<open>T3 = {y: 0}\<close>, no field
  locked. Reconciling against \<^verbatim>\<open>T2\<close> hides \<^verbatim>\<open>y\<close> (the truthiness test on
  \<^verbatim>\<open>descriptor.value\<close> takes the plain field holding 0 for an accessor) instead of deleting
  it; reconciling against \<^verbatim>\<open>T3\<close> then finds the identical value and returns, so \<^verbatim>\<open>y\<close>
  stays hidden and \<^verbatim>\<open>T\<close> shows no key. Reconciling \<^verbatim>\<open>T\<close> against \<^verbatim>\<open>T3\<close> directly leaves
  \<^verbatim>\<open>y\<close> visible.
\<close>

theorem round_trip_diverges_on_falsy_field:
  "fst (applyChange 1 (falsy_field, []) (Ref 10) (Ref 20) []) = Done
   \<and> snd (snd (applyChange 1 (falsy_field, []) (Ref 10) (Ref 20) [])) = [Removed ''y'']
   \<and> fst (applyChange 1 (snd (applyChange 1 (falsy_field, []) (Ref 10) (Ref 20) [])) (Ref 10) (Ref 30) []) = Done
   \<and> getOwnPropertyDescriptor
         (fst (snd (applyChange 1 (snd (applyChange 1 (falsy_field, []) (Ref 10) (Ref 20) [])) (Ref 10) (Ref 30) [])))
         (Ref 10) ''y'' = Some (Prop (Data (Num 0) True) False True)
   \<and> spread_keys
         (fst (snd (applyChange 1 (snd (applyChange 1 (falsy_field, []) (Ref 10) (Ref 20) [])) (Ref 10) (Ref 30) [])))
         (Ref 10) = []
   \<and> fst (applyChange 1 (falsy_field, []) (Ref 10) (Ref 30) []) = Done
   \<and> getOwnPropertyDescriptor (fst (snd (applyChange 1 (falsy_field, []) (Ref 10) (Ref 30) [])))
         (Ref 10) ''y'' = Some (Prop (Data (Num 0) True) True True)
   \<and> spread_keys (fst (snd (applyChange 1 (falsy_field, []) (Ref 10) (Ref 30) []))) (Ref 10) = [''y'']"
  by code_simp


subsection \<open>Reconciling a diff with a null leaf\<close>





















subsection \<open>The observed tree: store and node lemmas\<close>

lemma map_of_put_entry [simp]:
  "map_of (put_entry k v es) k' = (if k' = k then Some v else map_of es k')"
  by (induction es) auto

lemma node_at_set_node [simp]:
  "node_at (set_node n x t) m = (if m = n then x else node_at t m)"
  by (simp add: node_at_def set_node_def)

lemma set_node_fields [simp]:
  "objs (set_node n x t) = objs t" "fresh (set_node n x t) = fresh t"
  "next_node (set_node n x t) = next_node t" "cb (set_node n x t) = cb t"
  "ticks (set_node n x t) = ticks t" "calls (set_node n x t) = calls t"
  "b_value (set_node n x t) = b_value t" "b_has_get (set_node n x t) = b_has_get t"
  "b_set (set_node n x t) = b_set t" "b_enumerable (set_node n x t) = b_enumerable t"
  "host_undefined_enumerable (set_node n x t) = host_undefined_enumerable t"
  by (simp_all add: set_node_def)

lemma node_at_update_other [simp]:
  "node_at (t\<lparr>objs := h\<rparr>) n = node_at t n" "node_at (t\<lparr>fresh := f\<rparr>) n = node_at t n"
  "node_at (t\<lparr>next_node := m\<rparr>) n = node_at t n" "node_at (t\<lparr>cb := c\<rparr>) n = node_at t n"
  "node_at (t\<lparr>ticks := k\<rparr>) n = node_at t n" "node_at (t\<lparr>calls := cs\<rparr>) n = node_at t n"
  "node_at (t\<lparr>b_value := v\<rparr>) n = node_at t n" "node_at (t\<lparr>b_enumerable := e\<rparr>) n = node_at t n"
  by (simp_all add: node_at_def)

lemma key_order_single [simp]: "key_order [k] = [k]"
  by (simp add: key_order_def)




lemma js_assign_other:
  "js_assign h (Ref x) k v = Inr h' \<Longrightarrow> y \<noteq> x \<Longrightarrow> map_of h' y = map_of h y"
  by (auto simp: js_assign_def split: option.splits if_splits slot.splits setter.splits)

lemma js_assign_data:
  assumes "map_of h x = Some ob"
    and "case map_of ob k of Some p \<Rightarrow> (\<exists>y. content p = Data y True) | None \<Rightarrow> True"
  shows "\<exists>h'. js_assign h (Ref x) k v = Inr h' \<and> js_get h' (Ref x) k = Inr v"
proof (cases "map_of ob k")
  case None
  with assms show ?thesis
    by (simp add: js_assign_def js_get_def getOwnPropertyDescriptor_def map_add_def)
next
  case (Some p)
  with assms obtain y where "content p = Data y True" by auto
  with assms Some show ?thesis
    by (simp add: js_assign_def js_get_def getOwnPropertyDescriptor_def map_of_put_prop)
qed

lemma bound_get_view:
  "b_has_get t \<Longrightarrow> fst (bound_get t) =
     (case b_value t of
        Ref a \<Rightarrow> Proxy (case n_proxy (node_at t 0) of Some p \<Rightarrow> p | None \<Rightarrow> a) 0
      | v \<Rightarrow> Plain v)"
  by (cases "b_value t") (auto simp: bound_get_def topGetter_def getProxy_def split: option.splits)

text \<open>
  The installed setter, when the wrapped setter stores: the slot takes the new value, the
  cached proxy of the top node is dropped, and the value either becomes the pending store
  (a flush is scheduled) or goes to the callback at once.
\<close>

lemma bound_set_SetSlot:
  assumes st: "b_set t = SetSlot"
  shows "\<exists>t'. bound_set t x = (Inr (), t') \<and> b_value t' = x \<and> objs t' = objs t
           \<and> ticks t' = ticks t \<and> fresh t' = fresh t \<and> cb t' = cb t
           \<and> b_has_get t' = b_has_get t \<and> n_proxy (node_at t' 0) = None
           \<and> calls t' = (if cb_wait (cb t) then calls t else calls t @ [(x, objs t)])
           \<and> n_store (node_at t' 0) = (if cb_wait (cb t) then x else n_store (node_at t 0))"
proof -
  define t1 where "t1 = (if \<not> host_undefined_enumerable t then t\<lparr>b_enumerable := True\<rparr> else t)"
  define t2 where "t2 = (if n_proxy (node_at t1 0) \<noteq> None
                          then set_node 0 ((node_at t1 0)\<lparr>n_proxy := None\<rparr>) t1 else t1)"
  define t3 where "t3 = (if cb_wait (cb t2) then set_node 0 ((node_at t2 0)\<lparr>n_store := x\<rparr>) t2
                          else t2\<lparr>calls := calls t2 @ [(x, objs t2)]\<rparr>)"
  have f1: "objs t1 = objs t" "ticks t1 = ticks t" "fresh t1 = fresh t" "cb t1 = cb t"
    "b_has_get t1 = b_has_get t" "b_set t1 = b_set t" "calls t1 = calls t" "node_at t1 0 = node_at t 0"
    by (simp_all add: t1_def)
  have f2: "objs t2 = objs t" "ticks t2 = ticks t" "fresh t2 = fresh t" "cb t2 = cb t"
    "b_has_get t2 = b_has_get t" "b_set t2 = b_set t" "calls t2 = calls t"
    "n_proxy (node_at t2 0) = None" "n_store (node_at t2 0) = n_store (node_at t 0)"
    using f1 by (auto simp: t2_def)
  have f3: "objs t3 = objs t" "ticks t3 = ticks t" "fresh t3 = fresh t" "cb t3 = cb t"
    "b_has_get t3 = b_has_get t" "b_set t3 = b_set t" "n_proxy (node_at t3 0) = None"
    "calls t3 = (if cb_wait (cb t) then calls t else calls t @ [(x, objs t)])"
    "n_store (node_at t3 0) = (if cb_wait (cb t) then x else n_store (node_at t 0))"
    using f2 by (auto simp: t3_def)
  have "bound_set t x = (case b_set t3 of SetSlot \<Rightarrow> (Inr (), t3\<lparr>b_value := x\<rparr>)
                                        | SetThrow \<Rightarrow> (Inl SetterError, t3))"
    by (simp only: bound_set_def Let_def t1_def t2_def t3_def)
  then have "bound_set t x = (Inr (), t3\<lparr>b_value := x\<rparr>)"
    using st f3(6) by simp
  then show ?thesis
    using f3 by simp
qed

subsection \<open>Scheduling of the flush\<close>

lemma quiet_refl [simp]: "quiet t t"
  by (simp add: quiet_def)

lemma quiet_trans: "quiet t t1 \<Longrightarrow> quiet t1 t2 \<Longrightarrow> quiet t t2"
  by (simp add: quiet_def)

lemma quiet_set_node [simp]: "quiet t (set_node n x t)"
  by (simp add: quiet_def)

lemma quiet_objs [simp]: "quiet t (t\<lparr>objs := h\<rparr>)"
  by (simp add: quiet_def)

text \<open>
  What holds of every turn, in any state the engine can reach. Reading through proxies
  leaves the calls, the scheduled closures and \<^verbatim>\<open>callback.wait\<close> alone; \<^verbatim>\<open>nextCallback\<close>
  calls nothing and schedules one closure unless one is waiting already.
\<close>

lemma getProxy_quiet: "getProxy t n a = (v, t') \<Longrightarrow> quiet t t'"
  by (auto simp: getProxy_def split: option.splits)

lemma bound_get_quiet: "bound_get t = (v, t') \<Longrightarrow> quiet t t'"
  by (auto simp: bound_get_def topGetter_def split: if_splits val.splits dest: getProxy_quiet)

lemma trap_get_quiet: "trap_get t n a k = (r, t') \<Longrightarrow> quiet t t'"
  by (auto simp: trap_get_def Let_def alloc_def quiet_def getProxy_def
      split: sum.splits if_splits option.splits val.splits prod.splits)

lemma nextCallback_sched:
  "nextCallback t n = (r, t') \<Longrightarrow>
     calls t' = calls t \<and> cb_wait (cb t') \<and> ticks t' = (if cb_wait (cb t) then ticks t else Suc (ticks t))"
  by (auto simp: nextCallback_def Let_def split: if_splits sum.splits)

lemma trap_set_sched:
  "trap_set t n a k x = (r, t') \<Longrightarrow>
     calls t' = calls t \<and> cb_wait (cb t') \<and> ticks t' = (if cb_wait (cb t) then ticks t else Suc (ticks t))"
  by (auto simp: trap_set_def split: prod.splits sum.splits dest!: nextCallback_sched)

lemma trap_delete_sched:
  "trap_delete t n a k = (r, t') \<Longrightarrow>
     calls t' = calls t \<and> cb_wait (cb t') \<and> ticks t' = (if cb_wait (cb t) then ticks t else Suc (ticks t))"
  by (auto simp: trap_delete_def split: prod.splits sum.splits dest!: nextCallback_sched)

lemma proxy_get_quiet: "proxy_get t n a k = (r, t') \<Longrightarrow> quiet t t'"
  by (auto simp: proxy_get_def split: prod.splits sum.splits if_splits dest: trap_get_quiet)

lemma view_get_quiet: "view_get t v k = (r, t') \<Longrightarrow> quiet t t'"
  by (cases v) (auto split: sum.splits dest: proxy_get_quiet)

lemma walk_quiet: "walk t v ks = (r, t') \<Longrightarrow> quiet t t'"
proof (induction ks arbitrary: t v)
  case Nil
  then show ?case by simp
next
  case (Cons k ks)
  obtain r1 t1 where g: "view_get t v k = (r1, t1)" by (cases "view_get t v k")
  from view_get_quiet [OF g] have q: "quiet t t1" .
  show ?case
  proof (cases r1)
    case (Inl e)
    with Cons.prems g q show ?thesis by simp
  next
    case (Inr v1)
    with Cons.prems g have "walk t1 v1 ks = (r, t')" by simp
    from quiet_trans [OF q Cons.IH [OF this]] show ?thesis .
  qed
qed

lemma view_set_sched:
  "view_set t v k x = (r, t') \<Longrightarrow>
     calls t' = calls t
     \<and> (scheduled_once t \<longrightarrow> scheduled_once t')
     \<and> ((\<exists>a n. v = Proxy a n) \<longrightarrow> cb_wait (cb t'))"
  by (cases v) (auto simp: scheduled_once_def split: sum.splits dest!: trap_set_sched)

lemma view_delete_sched:
  "view_delete t v k = (r, t') \<Longrightarrow>
     calls t' = calls t
     \<and> (scheduled_once t \<longrightarrow> scheduled_once t')
     \<and> ((\<exists>a n. v = Proxy a n) \<longrightarrow> cb_wait (cb t'))"
  by (cases v) (auto simp: scheduled_once_def split: sum.splits dest!: trap_delete_sched)

lemma quiet_scheduled: "quiet t t' \<Longrightarrow> scheduled_once t \<Longrightarrow> scheduled_once t'"
  by (simp add: quiet_def scheduled_once_def)

lemma exec_mutation:
  assumes "exec t c = (r, t')" and "is_mutation c"
  shows "calls t' = calls t \<and> (scheduled_once t \<longrightarrow> scheduled_once t')"
proof (cases c)
  case (Assign ks k x)
  obtain v t1 where b: "bound_get t = (v, t1)" by (cases "bound_get t")
  obtain r2 t2 where w: "walk t1 v ks = (r2, t2)" by (cases "walk t1 v ks")
  have q: "quiet t t2"
    using quiet_trans [OF bound_get_quiet [OF b] walk_quiet [OF w]] .
  show ?thesis
  proof (cases r2)
    case (Inl e)
    with assms Assign b w q show ?thesis
      by (auto simp: quiet_def scheduled_once_def)
  next
    case (Inr v')
    with assms Assign b w have "view_set t2 v' k x = (r, t')" by simp
    from view_set_sched [OF this] q show ?thesis
      by (auto simp: quiet_def scheduled_once_def)
  qed
next
  case (Delete ks k)
  obtain v t1 where b: "bound_get t = (v, t1)" by (cases "bound_get t")
  obtain r2 t2 where w: "walk t1 v ks = (r2, t2)" by (cases "walk t1 v ks")
  have q: "quiet t t2"
    using quiet_trans [OF bound_get_quiet [OF b] walk_quiet [OF w]] .
  show ?thesis
  proof (cases r2)
    case (Inl e)
    with assms Delete b w q show ?thesis
      by (auto simp: quiet_def scheduled_once_def)
  next
    case (Inr v')
    with assms Delete b w have "view_delete t2 v' k = (r, t')" by simp
    from view_delete_sched [OF this] q show ?thesis
      by (auto simp: quiet_def scheduled_once_def)
  qed
next
  case (Write x)
  with assms show ?thesis by simp
qed

lemma run_mutations:
  "run t cs = (r, t') \<Longrightarrow> list_all is_mutation cs \<Longrightarrow>
     calls t' = calls t \<and> (scheduled_once t \<longrightarrow> scheduled_once t')"
proof (induction cs arbitrary: t)
  case Nil
  then show ?case by simp
next
  case (Cons c cs)
  obtain r1 t1 where e: "exec t c = (r1, t1)" by (cases "exec t c")
  from Cons.prems have m: "is_mutation c" "list_all is_mutation cs" by simp_all
  note s = exec_mutation [OF e m(1)]
  show ?case
  proof (cases r1)
    case (Inl x)
    with Cons.prems e s show ?thesis by simp
  next
    case (Inr u)
    with Cons.prems e have "run t1 cs = (r, t')" by simp
    from Cons.IH [OF this m(2)] s show ?thesis by simp
  qed
qed

lemma tick_once:
  "scheduled_once t \<Longrightarrow>
     (tick ^^ ticks t) t = (if cb_wait (cb t) then flush (t\<lparr>ticks := 0\<rparr>) else t)"
  by (simp add: scheduled_once_def tick_def split: if_splits)

lemma flush_fields:
  "calls (flush t) = calls t @ [(n_store (node_at t 0), objs t)]"
  "ticks (flush t) = ticks t" "cb_wait (cb (flush t)) = False"
  by (simp_all add: flush_def alloc_def Let_def)

text \<open>
  Assignments and deletions through the proxies never call the callback themselves, and
  the end of the turn calls it once if one of them went through a trap, and not at all
  otherwise; afterwards nothing is scheduled. The state at the start has as many scheduled
  closures as \<^verbatim>\<open>callback.wait\<close> says, which holds after \<^verbatim>\<open>observe\<close> and after every
  statement.
\<close>

lemma mutations_never_call_and_flush_once:
  assumes "scheduled_once t" and "list_all is_mutation cs"
  shows "calls (snd (run t cs)) = calls t
       \<and> (\<exists>d. calls (snd (turn t cs))
                 = (if cb_wait (cb (snd (run t cs))) then calls t @ [d] else calls t))
       \<and> ticks (snd (turn t cs)) = 0 \<and> \<not> cb_wait (cb (snd (turn t cs)))"
proof -
  obtain r t' where rn: "run t cs = (r, t')" by (cases "run t cs")
  from run_mutations [OF rn assms(2)] assms(1)
  have c: "calls t' = calls t" and s: "scheduled_once t'" by simp_all
  have tn: "snd (turn t cs) = (tick ^^ ticks t') t'"
    by (simp add: turn_def rn)
  have fin: "snd (turn t cs) = (if cb_wait (cb t') then flush (t'\<lparr>ticks := 0\<rparr>) else t')"
    unfolding tn by (rule tick_once [OF s])
  show ?thesis
  proof (cases "cb_wait (cb t')")
    case True
    then show ?thesis
      using c by (simp add: rn fin flush_fields)
  next
    case False
    then show ?thesis
      using c s by (simp add: rn fin scheduled_once_def)
  qed
qed

lemma observe_scheduled: "observe h nxt d ue = Inr (Some t) \<Longrightarrow> scheduled_once t"
  by (auto simp: observe_def scheduled_once_def Let_def split: if_splits prod.splits)

lemma bound_set_scheduled:
  assumes "bound_set t x = (r, t')"
  shows "ticks t' = ticks t \<and> cb_wait (cb t') = cb_wait (cb t)"
proof -
  define t1 where "t1 = (if \<not> host_undefined_enumerable t then t\<lparr>b_enumerable := True\<rparr> else t)"
  define t2 where "t2 = (if n_proxy (node_at t1 0) \<noteq> None
                          then set_node 0 ((node_at t1 0)\<lparr>n_proxy := None\<rparr>) t1 else t1)"
  define t3 where "t3 = (if cb_wait (cb t2) then set_node 0 ((node_at t2 0)\<lparr>n_store := x\<rparr>) t2
                          else t2\<lparr>calls := calls t2 @ [(x, objs t2)]\<rparr>)"
  have f1: "ticks t1 = ticks t" "cb t1 = cb t"
    by (simp_all add: t1_def)
  have f2: "ticks t2 = ticks t" "cb t2 = cb t"
    using f1 by (simp_all add: t2_def)
  have f3: "ticks t3 = ticks t" "cb t3 = cb t"
    using f2 by (simp_all add: t3_def)
  have "bound_set t x = (case b_set t3 of SetSlot \<Rightarrow> (Inr (), t3\<lparr>b_value := x\<rparr>)
                                        | SetThrow \<Rightarrow> (Inl SetterError, t3))"
    by (simp only: bound_set_def Let_def t1_def t2_def t3_def)
  with assms f3 show ?thesis
    by (cases "b_set t3") auto
qed

lemma exec_scheduled:
  assumes "exec t c = (r, t')" and "scheduled_once t"
  shows "scheduled_once t'"
proof (cases "is_mutation c")
  case True
  from exec_mutation [OF assms(1) True] assms(2) show ?thesis by simp
next
  case False
  then obtain x where "c = Write x" by (cases c) auto
  with assms bound_set_scheduled [of t x r t'] show ?thesis
    by (simp add: scheduled_once_def)
qed

subsection \<open>The diff of a binding just installed\<close>


text \<open>
  The same for an assignment three levels down, on a binding just installed:
  \<^verbatim>\<open>host.key.a.b.c = x\<close> with a primitive \<open>x\<close> delivers exactly one diff,
  \<^verbatim>\<open>{a: {b: {c: x}}}\<close>, which holds no other key at any level, and the observed object has
  the new value; neither \<open>a\<close> nor \<open>b\<close> is both read-only and non-configurable. So the
  stale \<^verbatim>\<open>store\<close> of the second-turn examples is what breaks the diff, not the staging of
  a first turn.
\<close>

lemma assign_nested_key_diff:
  assumes root: "map_of h r = Some obr"
    and a: "map_of obr a = Some pa" and ra: "read_slot (content pa) = Ref ra"
    and child: "map_of h ra = Some oba"
    and b: "map_of oba b = Some pb" and rb: "read_slot (content pb) = Ref rb"
    and nf: "\<not> read_only_locked pa" "\<not> read_only_locked pb"
    and leaf: "map_of h rb = Some obb"
    and c: "case map_of obb c of Some p \<Rightarrow> (\<exists>y. content p = Data y True) | None \<Rightarrow> True"
    and x: "\<not> isObj x"
    and fresh: "map_of h nxt = None" "map_of h (Suc nxt) = None" "map_of h (Suc (Suc nxt)) = None"
      "map_of h (Suc (Suc (Suc nxt))) = None"
    and obs: "observe h nxt (Some (Prop (Data (Ref r) w) e True)) ue = Inr (Some t)"
  shows "\<exists>t'. turn t [Assign [a, b] c x] = (Inr (), t')
           \<and> delivered t' (Node [(a, Node [(b, Node [(c, Leaf x)])])]) = [True]
           \<and> js_get (objs t') (Ref rb) c = Inr x"
proof -
  have ne: "r \<noteq> nxt" "r \<noteq> Suc nxt" "r \<noteq> Suc (Suc nxt)"
    "ra \<noteq> nxt" "ra \<noteq> Suc nxt" "ra \<noteq> Suc (Suc nxt)"
    "rb \<noteq> nxt" "rb \<noteq> Suc nxt" "rb \<noteq> Suc (Suc nxt)" "rb \<noteq> Suc (Suc (Suc nxt))"
    using root child leaf fresh by auto
  have t: "t = \<lparr>objs = put_obj nxt [] h, fresh = Suc nxt,
            nodes = [(0, blank_node\<lparr>n_store := Ref nxt\<rparr>)], next_node = 1,
            cb = \<lparr>cb_wait = False, cb_key = ''undefined'', cb_store = Undefined, cb_tmp = Undefined\<rparr>,
            ticks = 0, calls = [],
            b_value = Ref r, b_has_get = True, b_set = SetSlot,
            b_enumerable = e, host_undefined_enumerable = ue\<rparr>"
    using obs by (simp add: observe_def locked_def)
  define t1 where "t1 = set_node 0 ((node_at t 0)\<lparr>n_children := [], n_proxy := Some r\<rparr>) t"
  have s1: "bound_get t = (Proxy r 0, t1)"
    by (simp add: bound_get_def topGetter_def getProxy_def t1_def t node_at_def blank_node_def)
  have g: "js_get (objs t1) (Ref r) a = Inr (Ref ra)"
    using root a ra ne by (simp add: t1_def t js_get_def getOwnPropertyDescriptor_def)
  obtain t2 where s2: "trap_get t1 0 r a = (Inr (Proxy ra (Suc 0)), t2)"
    and f2: "objs t2 = put_obj (Suc nxt) [] (put_obj nxt [] h)"
       "node_at t2 (Suc 0) = \<lparr>n_tmp = Ref (Suc nxt), n_store = Undefined, n_proxy = Some ra, n_children = []\<rparr>"
       "n_store (node_at t2 0) = Ref nxt"
       "cb t2 = \<lparr>cb_wait = False, cb_key = a, cb_store = Ref nxt, cb_tmp = Ref (Suc nxt)\<rparr>"
       "ticks t2 = 0" "calls t2 = []" "fresh t2 = Suc (Suc nxt)" "next_node t2 = Suc (Suc 0)"
       "map_of (nodes t2) (Suc (Suc 0)) = None"
    using g ne
    by (simp add: trap_get_def t1_def t node_at_def set_node_def blank_node_def alloc_def Let_def
        js_get_def getOwnPropertyDescriptor_def getProxy_def)
  have "get_invariant (objs t2) r a (Proxy ra (Suc 0))"
    using root a ra nf(1) ne
    by (auto simp: f2 get_invariant_def getOwnPropertyDescriptor_def read_only_locked_def
        split: slot.splits if_splits)
  with s2 have p2: "proxy_get t1 0 r a = (Inr (Proxy ra (Suc 0)), t2)"
    by (simp add: proxy_get_def)
  have g2: "js_get (objs t2) (Ref ra) b = Inr (Ref rb)"
    using child b rb ne by (simp add: f2 js_get_def getOwnPropertyDescriptor_def)
  obtain t3 where s3: "trap_get t2 (Suc 0) ra b = (Inr (Proxy rb (Suc (Suc 0))), t3)"
    and f3: "objs t3 = put_obj (Suc nxt) [(b, Prop (Data (Ref (Suc (Suc nxt))) True) True True)]
                         (put_obj (Suc (Suc nxt)) [] (objs t2))"
       "n_tmp (node_at t3 (Suc (Suc 0))) = Ref (Suc (Suc nxt))"
       "n_store (node_at t3 (Suc (Suc 0))) = Undefined"
       "n_store (node_at t3 0) = Ref nxt"
       "cb t3 = \<lparr>cb_wait = False, cb_key = a, cb_store = Ref nxt, cb_tmp = Ref (Suc nxt)\<rparr>"
       "ticks t3 = 0" "calls t3 = []" "fresh t3 = Suc (Suc (Suc nxt))"
    using g2 f2 ne
    by (simp add: trap_get_def node_at_def set_node_def blank_node_def alloc_def Let_def
        js_assign_def getProxy_def)
  have "get_invariant (objs t3) ra b (Proxy rb (Suc (Suc 0)))"
    using child b rb nf(2) ne
    by (auto simp: f3 f2 get_invariant_def getOwnPropertyDescriptor_def read_only_locked_def
        split: slot.splits if_splits)
  with s3 have p3: "proxy_get t2 (Suc 0) ra b = (Inr (Proxy rb (Suc (Suc 0))), t3)"
    by (simp add: proxy_get_def)
  define h4 where "h4 = put_obj (Suc (Suc nxt)) [(c, Prop (Data x True) True True)]
                          (put_obj nxt [(a, Prop (Data (Ref (Suc nxt)) True) True True)] (objs t3))"
  have "map_of h4 rb = Some obb"
    using leaf ne by (simp add: h4_def f3 f2)
  from js_assign_data [OF this c, of x] obtain h5
    where h5: "js_assign h4 (Ref rb) c x = Inr h5" "js_get h5 (Ref rb) c = Inr x" by blast
  have l5: "map_of h5 nxt = Some [(a, Prop (Data (Ref (Suc nxt)) True) True True)]"
    "map_of h5 (Suc nxt) = Some [(b, Prop (Data (Ref (Suc (Suc nxt))) True) True True)]"
    "map_of h5 (Suc (Suc nxt)) = Some [(c, Prop (Data x True) True True)]"
    using js_assign_other [OF h5(1), of nxt] js_assign_other [OF h5(1), of "Suc nxt"]
      js_assign_other [OF h5(1), of "Suc (Suc nxt)"] ne
    by (simp_all add: h4_def f3 f2)
  obtain t4 where s4: "trap_set t3 (Suc (Suc 0)) rb c x = (Inr (), t4)"
    and f4: "objs t4 = h5" "n_store (node_at t4 0) = Ref nxt" "ticks t4 = Suc 0" "calls t4 = []"
      "fresh t4 = Suc (Suc (Suc nxt))"
    using h5 f3
    by (simp add: trap_set_def nextCallback_def Let_def js_assign_def h4_def f2)
  have rn: "run t [Assign [a, b] c x] = (Inr (), t4)"
    by (simp add: s1 p2 p3 s4)
  define t5 where "t5 = (tick ^^ ticks t4) t4"
  have fl: "calls t5 = [(Ref nxt, h5)]" "objs t5 = put_obj (Suc (Suc (Suc nxt))) [] h5"
    using f4 by (simp_all add: t5_def tick_def flush_def alloc_def Let_def)
  have rd: "reads_as h5 (Ref nxt) (Node [(a, Node [(b, Node [(c, Leaf x)])])])"
    using l5 x
    by (simp add: spread_keys_def all_keys_def enum_keys_def own_keys_def js_get_def
        getOwnPropertyDescriptor_def)
  have "getOwnPropertyDescriptor (objs t5) (Ref rb) c = getOwnPropertyDescriptor h5 (Ref rb) c"
    using ne by (simp add: fl getOwnPropertyDescriptor_def)
  then have val: "js_get (objs t5) (Ref rb) c = Inr x"
    using h5(2) by (simp add: js_get_def)
  have "turn t [Assign [a, b] c x] = (Inr (), t5)"
    unfolding turn_def rn t5_def by simp
  with fl rd val show ?thesis
    by (simp add: delivered_def del: reads_as.simps)
qed

subsection \<open>A second turn\<close>

text \<open>
  The running example: the observed value is \<^verbatim>\<open>{a: {b: {c: 0, d: 0}, x: {y: 0}}, s: 1}\<close>
  (objects 1 to 4 of the store), bound with \<^verbatim>\<open>observe\<close>; a first turn makes the two
  assignments \<^verbatim>\<open>host.state.a.b.c = 1; host.state.a.b.d = 2\<close>. After its flush the node of
  \<^verbatim>\<open>a.b\<close> (number 2) still has \<^verbatim>\<open>store\<close> pointing at object 7, a part of the diff that
  has been delivered: the \<^verbatim>\<open>get\<close> trap assigns \<^verbatim>\<open>store\<close> of a child only in the branch
  where its own \<^verbatim>\<open>store\<close> is set, and \<^verbatim>\<open>nextCallback\<close> never clears it.
\<close>

lemma observe_nested:
  "observe nested_tree 5 (Some (Prop (Data (Ref 1) True) True True)) False = Inr (Some nested_binding)"
  by code_simp

lemma first_turn_state: "turn nested_binding first_turn = (Inr (), after_first_turn)"
  by code_simp

lemma first_turn_diff:
  "delivered after_first_turn
     (Node [(''a'', Node [(''b'', Node [(''c'', Leaf (Num 1)), (''d'', Leaf (Num 2))])])]) = [True]"
  by code_simp

lemma pending_state: "exec nested_binding (Assign [] ''s'' (Num 2)) = (Inr (), pending_binding)"
  by code_simp

text \<open>
  Claim C3 fails on the code in a second turn. After the first turn above (whose diff is
  the expected \<^verbatim>\<open>{a: {b: {c: 1, d: 2}}}\<close>), the single assignment
  \<^verbatim>\<open>host.state.a.b.c = 3\<close> changes the observed tree, and the callback is called once more,
  but with the empty diff \<^verbatim>\<open>{}\<close>, not \<^verbatim>\<open>{a: {b: {c: 3}}}\<close>: \<^verbatim>\<open>nextCallback\<close> on the node
  of \<^verbatim>\<open>a.b\<close> finds the stale \<^verbatim>\<open>store\<close>, returns it, and the value is written into the
  diff of the turn before.
\<close>

theorem second_turn_single_mutation_lost:
  "observe nested_tree 5 (Some (Prop (Data (Ref 1) True) True True)) False = Inr (Some nested_binding)
   \<and> turn nested_binding first_turn = (Inr (), after_first_turn)
   \<and> delivered after_first_turn
         (Node [(''a'', Node [(''b'', Node [(''c'', Leaf (Num 1)), (''d'', Leaf (Num 2))])])]) = [True]
   \<and> fst (turn after_first_turn [Assign [''a'', ''b''] ''c'' (Num 3)]) = Inr ()
   \<and> js_get (objs (snd (turn after_first_turn [Assign [''a'', ''b''] ''c'' (Num 3)]))) (Ref 3) ''c'' = Inr (Num 3)
   \<and> map fst (calls (snd (turn after_first_turn [Assign [''a'', ''b''] ''c'' (Num 3)]))) = [Ref 5, Ref 10]
   \<and> delivered (snd (turn after_first_turn [Assign [''a'', ''b''] ''c'' (Num 3)])) (Node []) = [False, True]"
  by (intro conjI; code_simp)

text \<open>
  Claim C2 fails on the code in a second turn. After the same first turn, the three
  mutations \<^verbatim>\<open>host.state.a.b.c = 3; host.state.s = 4; delete host.state.a.x.y\<close> run
  without an exception; none of them calls the callback (one closure is scheduled), the
  turn ends with exactly one more call, and its diff is \<^verbatim>\<open>{s: 4, a: {x: {y: null}}}\<close>: the
  change of \<^verbatim>\<open>a.b.c\<close>, which did reach the observed tree, is missing.
\<close>

theorem second_turn_diff_misses_a_change:
  "turn nested_binding first_turn = (Inr (), after_first_turn)
   \<and> fst (run after_first_turn second_turn) = Inr ()
   \<and> calls (snd (run after_first_turn second_turn)) = calls after_first_turn
   \<and> ticks (snd (run after_first_turn second_turn)) = 1
   \<and> map fst (calls (snd (turn after_first_turn second_turn))) = [Ref 5, Ref 10]
   \<and> js_get (objs (snd (turn after_first_turn second_turn))) (Ref 3) ''c'' = Inr (Num 3)
   \<and> delivered (snd (turn after_first_turn second_turn))
         (Node [(''s'', Leaf (Num 4)), (''a'', Node [(''x'', Node [(''y'', Leaf Null)])])]) = [False, True]"
  by (intro conjI; code_simp)

subsection \<open>The bound property\<close>

text \<open>
  Claim C8 (as amended). On a binding whose wrapped setter stores its value: a read of the
  bound property returns a proxy on the top node when the current value is an object, and
  the value itself otherwise; a write replaces the value wholesale (the next read is a
  proxy on the new object), and, when no flush is pending, calls the callback at once with
  the raw new value; when a flush is pending it calls nothing, makes the raw value the
  pending diff and leaves it to the flush, which delivers it unless a later write or
  mutation of the turn changes the pending diff first.
\<close>

theorem bound_property_reads_and_writes:
  assumes st: "b_set t = SetSlot"
  shows "(b_has_get t \<and> isObj (b_value t) \<longrightarrow> (\<exists>a. fst (bound_get t) = Proxy a 0))
       \<and> (b_has_get t \<and> \<not> isObj (b_value t) \<longrightarrow> fst (bound_get t) = Plain (b_value t))
       \<and> (\<not> cb_wait (cb t) \<longrightarrow>
            (\<exists>t'. bound_set t x = (Inr (), t') \<and> b_value t' = x \<and> objs t' = objs t
                  \<and> calls t' = calls t @ [(x, objs t)] \<and> ticks t' = ticks t
                  \<and> (\<forall>a. b_has_get t \<and> x = Ref a \<longrightarrow> fst (bound_get t') = Proxy a 0)))
       \<and> (cb_wait (cb t) \<longrightarrow>
            (\<exists>t'. bound_set t x = (Inr (), t') \<and> b_value t' = x \<and> objs t' = objs t
                  \<and> calls t' = calls t \<and> ticks t' = ticks t
                  \<and> calls (flush t') = calls t @ [(x, objs t)]
                  \<and> (\<forall>a. b_has_get t \<and> x = Ref a \<longrightarrow> fst (bound_get t') = Proxy a 0)))"
proof (intro conjI impI)
  assume "b_has_get t \<and> isObj (b_value t)"
  then show "\<exists>a. fst (bound_get t) = Proxy a 0"
    by (cases "b_value t") (auto simp: bound_get_view)
next
  assume "b_has_get t \<and> \<not> isObj (b_value t)"
  then show "fst (bound_get t) = Plain (b_value t)"
    by (cases "b_value t") (auto simp: bound_get_view)
next
  assume w: "\<not> cb_wait (cb t)"
  from bound_set_SetSlot [OF st, of x] w
  show "\<exists>t'. bound_set t x = (Inr (), t') \<and> b_value t' = x \<and> objs t' = objs t
                  \<and> calls t' = calls t @ [(x, objs t)] \<and> ticks t' = ticks t
                  \<and> (\<forall>a. b_has_get t \<and> x = Ref a \<longrightarrow> fst (bound_get t') = Proxy a 0)"
    by (auto simp: bound_get_view)
next
  assume w: "cb_wait (cb t)"
  from bound_set_SetSlot [OF st, of x] w obtain t'
    where t': "bound_set t x = (Inr (), t')" "b_value t' = x" "objs t' = objs t" "ticks t' = ticks t"
      "b_has_get t' = b_has_get t" "n_proxy (node_at t' 0) = None" "calls t' = calls t"
      "n_store (node_at t' 0) = x"
    by auto
  have "calls (flush t') = calls t @ [(x, objs t)]"
    using t' by (simp add: flush_def alloc_def Let_def)
  with t' show "\<exists>t'. bound_set t x = (Inr (), t') \<and> b_value t' = x \<and> objs t' = objs t
                  \<and> calls t' = calls t \<and> ticks t' = ticks t
                  \<and> calls (flush t') = calls t @ [(x, objs t)]
                  \<and> (\<forall>a. b_has_get t \<and> x = Ref a \<longrightarrow> fst (bound_get t') = Proxy a 0)"
    by (auto simp: bound_get_view)
qed

text \<open>
  On the running example: a write with no flush pending, and a write after the mutation
  \<^verbatim>\<open>host.state.s = 2\<close> has scheduled one.
\<close>

theorem bound_property_witness:
  "b_set nested_binding = SetSlot \<and> b_has_get nested_binding \<and> isObj (b_value nested_binding)
   \<and> (\<exists>a. fst (bound_get nested_binding) = Proxy a 0)
   \<and> \<not> cb_wait (cb nested_binding)
   \<and> (\<exists>t'. bound_set nested_binding (Ref 3) = (Inr (), t') \<and> b_value t' = Ref 3
             \<and> calls t' = [(Ref 3, objs nested_binding)] \<and> fst (bound_get t') = Proxy 3 0)
   \<and> exec nested_binding (Assign [] ''s'' (Num 2)) = (Inr (), pending_binding)
   \<and> b_set pending_binding = SetSlot \<and> cb_wait (cb pending_binding)
   \<and> (\<exists>t'. bound_set pending_binding (Ref 3) = (Inr (), t') \<and> b_value t' = Ref 3
             \<and> calls t' = [] \<and> calls (flush t') = [(Ref 3, objs pending_binding)])"
proof -
  have p: "b_set nested_binding = SetSlot" "b_has_get nested_binding" "isObj (b_value nested_binding)"
    "\<not> cb_wait (cb nested_binding)" "calls nested_binding = []"
    by (simp_all add: nested_binding_def)
  have q: "b_set pending_binding = SetSlot" "cb_wait (cb pending_binding)" "calls pending_binding = []"
    by (simp_all add: pending_binding_def)
  from bound_property_reads_and_writes [OF p(1), of "Ref 3"]
       bound_property_reads_and_writes [OF q(1), of "Ref 3"]
  show ?thesis
    using p q pending_state by auto
qed

text \<open>
  Claim C8 as stated fails for a write that a later write of the same turn replaces while
  a flush is pending: after \<^verbatim>\<open>host.state.s = 2\<close>, the writes \<^verbatim>\<open>host.state = o3\<close> and
  \<^verbatim>\<open>host.state = o4\<close> end in one call of the callback, with \<^verbatim>\<open>o4\<close>; \<^verbatim>\<open>o3\<close> is never
  emitted.
\<close>

theorem later_write_replaces_pending_value_counterexample:
  "fst (turn nested_binding [Assign [] ''s'' (Num 2), Write (Ref 3), Write (Ref 4)]) = Inr ()
   \<and> map fst (calls (snd (turn nested_binding [Assign [] ''s'' (Num 2), Write (Ref 3), Write (Ref 4)]))) = [Ref 4]"
  by (intro conjI; code_simp)


subsection \<open>The deletion sentinel\<close>

text \<open>
  A property that is read-only and non-configurable and holds an object cannot be read
  through the proxy: \<^verbatim>\<open>delete host.state.a.b\<close> on such a tree throws at the read of
  \<^verbatim>\<open>a\<close>; nothing is scheduled or delivered and \<^verbatim>\<open>b\<close> stays.
\<close>

lemma read_only_locked_child_read_throws:
  "observe read_only_tree 3 (Some (Prop (Data (Ref 1) True) True True)) False = Inr (Some read_only_binding)
   \<and> fst (turn read_only_binding [Delete [''a''] ''b''])
        = Inl (TypeError ''proxy get: answer differs from the read-only property'')
   \<and> calls (snd (turn read_only_binding [Delete [''a''] ''b''])) = []
   \<and> ticks (snd (run read_only_binding [Delete [''a''] ''b''])) = 0
   \<and> js_get (objs (snd (turn read_only_binding [Delete [''a''] ''b'']))) (Ref 2) ''b'' = Inr (Num 1)"
  by (intro conjI; code_simp)




subsection \<open>The registration surface\<close>

text \<open>
  Claim C9. Every call \<^verbatim>\<open>on(event, callback)\<close> whose event is not a string or whose
  callback is not a function throws a \<^verbatim>\<open>TypeError\<close> to the caller at once; the server is
  left exactly as it was, so no listener is registered for any event and no trigger
  callback runs. The function has no loop and no recursion: the failing call is made once.
\<close>

theorem on_malformed_arguments_throw:
  "typeof event \<noteq> ''string'' \<or> typeof callback \<noteq> ''function'' \<Longrightarrow>
     (\<exists>msg. on srv event callback = (Throw (TypeError msg), srv))
     \<and> (\<forall>e. listeners_of (snd (on srv event callback)) e = listeners_of srv e)"
  by (auto simp: on_def)

theorem on_malformed_arguments_witness:
  "typeof (Num 5) \<noteq> ''string''
   \<and> (\<exists>msg. on (addTrigger \<lparr>triggers = Map.empty, fired = []\<rparr> ''preload'' Undefined) (Num 5) (Fn 0)
              = (Throw (TypeError msg), addTrigger \<lparr>triggers = Map.empty, fired = []\<rparr> ''preload'' Undefined))
   \<and> typeof (Num 1) \<noteq> ''function''
   \<and> (\<exists>msg. on (addTrigger \<lparr>triggers = Map.empty, fired = []\<rparr> ''preload'' Undefined) (Str ''preload'') (Num 1)
              = (Throw (TypeError msg), addTrigger \<lparr>triggers = Map.empty, fired = []\<rparr> ''preload'' Undefined))"
  using on_malformed_arguments_throw [of "Num 5" "Fn 0" "addTrigger \<lparr>triggers = Map.empty, fired = []\<rparr> ''preload'' Undefined"]
        on_malformed_arguments_throw [of "Str ''preload''" "Num 1" "addTrigger \<lparr>triggers = Map.empty, fired = []\<rparr> ''preload'' Undefined"]
  by simp

end
